theory Spec2Isabelle
  imports Complex_Main "HOL-Library.Sublist" "HOL-Library.Log_Nat"
begin

section \<open>Numbers\<close>

text \<open>
  The program computes with JavaScript numbers, which are IEEE-754 doubles. Two readings of
  the arithmetic are used. In the first, durations, minutes and costs are exact rationals
  (\<^typ>\<open>rat\<close>) and \<open>+\<close>, \<open>*\<close>, \<open>/\<close> are exact: it serves the properties that do not depend on
  rounding (which classes are charged, which jobs are skipped, how a run is routed, how the
  runs are counted). In the second, every operation is rounded to the nearest double, as the
  program does it: it serves the properties that speak of exact equality of the numbers.

  A \<open>jsnum\<close> is a number that may also be one of the special values: \<open>Finite 0\<close> is \<open>+0\<close>,
  \<open>NegZero\<close> is \<open>-0\<close>. The argument \<open>days\<close> of \<open>calculateRepoCost\<close> and the two projections it
  returns are of this type.
\<close>

datatype jsnum = Finite rat | NegZero | PosInfinity | NegInfinity | NaN

definition js_divide :: "rat \<Rightarrow> jsnum \<Rightarrow> jsnum" where
  \<comment> \<open>\<open>a / m\<close> for a finite \<open>a\<close> (where \<open>a = 0\<close> is \<open>+0\<close>)\<close>
  "js_divide a m =
     (case m of
        Finite b \<Rightarrow>
          (if b \<noteq> 0 then (if a = 0 \<and> b < 0 then NegZero else Finite (a / b))
           else if a = 0 then NaN
           else if 0 < a then PosInfinity else NegInfinity)
      | NegZero \<Rightarrow> (if a = 0 then NaN else if 0 < a then NegInfinity else PosInfinity)
      | PosInfinity \<Rightarrow> (if a < 0 then NegZero else Finite 0)
      | NegInfinity \<Rightarrow> (if a < 0 then Finite 0 else NegZero)
      | NaN \<Rightarrow> NaN)"

definition js_times :: "rat \<Rightarrow> jsnum \<Rightarrow> jsnum" where
  \<comment> \<open>\<open>a * m\<close> for a finite \<open>a\<close> (where \<open>a = 0\<close> is \<open>+0\<close>)\<close>
  "js_times a m =
     (case m of
        Finite b \<Rightarrow> (if (a = 0 \<and> b < 0) \<or> (a < 0 \<and> b = 0) then NegZero else Finite (a * b))
      | NegZero \<Rightarrow> (if a < 0 then Finite 0 else NegZero)
      | PosInfinity \<Rightarrow> (if a = 0 then NaN else if 0 < a then PosInfinity else NegInfinity)
      | NegInfinity \<Rightarrow> (if a = 0 then NaN else if 0 < a then NegInfinity else PosInfinity)
      | NaN \<Rightarrow> NaN)"

subsection \<open>Rounding to a double\<close>

text \<open>
  \<open>round64 x\<close> is the double nearest to \<open>x\<close>, ties to the even significand: 53 significant
  bits, with the exponent held at \<open>-1022\<close> for the subnormal numbers. A double is the rational
  it denotes. Overflow to \<open>Infinity\<close> is not part of \<open>round64\<close>: the cost functions divide and
  multiply durations by constants and add a few such values, which cannot overflow.
\<close>

definition round_even :: "rat \<Rightarrow> int" where
  \<comment> \<open>the nearest integer, a tie going to the even one\<close>
  "round_even x =
     (let f = \<lfloor>x\<rfloor>; r = x - of_int f
      in if r < 1 / 2 then f else if 1 / 2 < r then f + 1 else if even f then f else f + 1)"

definition ilog2 :: "rat \<Rightarrow> int" where
  \<comment> \<open>for \<open>0 < x\<close>, the exponent \<open>e\<close> with \<open>2 ^ e \<le> x < 2 ^ (e + 1)\<close>\<close>
  "ilog2 x = (if 1 \<le> x then bitlen \<lfloor>x\<rfloor> - 1 else - bitlen (\<lceil>1 / x\<rceil> - 1))"

definition round64 :: "rat \<Rightarrow> rat" where
  "round64 x =
     (if x = 0 then 0
      else let e = max (ilog2 \<bar>x\<bar>) (- 1022); q = 2 powi (e - 52)
           in of_int (round_even (x / q)) * q)"

definition fl_add :: "rat \<Rightarrow> rat \<Rightarrow> rat" where "fl_add a b = round64 (a + b)"
definition fl_sub :: "rat \<Rightarrow> rat \<Rightarrow> rat" where "fl_sub a b = round64 (a - b)"
definition fl_mul :: "rat \<Rightarrow> rat \<Rightarrow> rat" where "fl_mul a b = round64 (a * b)"
definition fl_div :: "rat \<Rightarrow> rat \<Rightarrow> rat" where "fl_div a b = round64 (a / b)"

section \<open>Pricing table\<close>

text \<open>\<open>PRICING = { LINUX: 0.008, WINDOWS: 0.016, MACOS: 0.08 }\<close>, per minute.\<close>

definition PRICING_LINUX :: rat where "PRICING_LINUX = 8 / 1000"
definition PRICING_WINDOWS :: rat where "PRICING_WINDOWS = 16 / 1000"
definition PRICING_MACOS :: rat where "PRICING_MACOS = 8 / 100"

text \<open>
  The three OS classes are the strings \<open>"UBUNTU"\<close>, \<open>"WINDOWS"\<close>, \<open>"MACOS"\<close> that
  \<open>detectRunnerOS\<close> returns; \<open>UBUNTU\<close> is the Linux class.
\<close>

datatype runner_os = OS_UBUNTU | OS_WINDOWS | OS_MACOS

fun rate :: "runner_os \<Rightarrow> rat" where
  "rate OS_UBUNTU = PRICING_LINUX"
| "rate OS_WINDOWS = PRICING_WINDOWS"
| "rate OS_MACOS = PRICING_MACOS"

section \<open>Cost records\<close>

record os_cost =
  minutes :: rat
  cost :: rat

record CostBreakdown =
  UBUNTU :: os_cost
  WINDOWS :: os_cost
  MACOS :: os_cost

record CostResult =
  linux :: rat
  windows :: rat
  macos :: rat
  total :: rat
  breakdown :: CostBreakdown

definition zero_costs :: CostResult where
  \<comment> \<open>the object literal every cost computation starts from\<close>
  "zero_costs =
     \<lparr>linux = 0, windows = 0, macos = 0, total = 0,
      breakdown = \<lparr>UBUNTU = \<lparr>minutes = 0, cost = 0\<rparr>,
                   WINDOWS = \<lparr>minutes = 0, cost = 0\<rparr>,
                   MACOS = \<lparr>minutes = 0, cost = 0\<rparr>\<rparr>\<rparr>"

fun bucket :: "CostBreakdown \<Rightarrow> runner_os \<Rightarrow> os_cost" where
  \<comment> \<open>\<open>breakdown[os]\<close>\<close>
  "bucket b OS_UBUNTU = UBUNTU b"
| "bucket b OS_WINDOWS = WINDOWS b"
| "bucket b OS_MACOS = MACOS b"

fun class_cost :: "CostResult \<Rightarrow> runner_os \<Rightarrow> rat" where
  \<comment> \<open>the top-level per-class cost fields \<open>linux\<close>, \<open>windows\<close>, \<open>macos\<close>\<close>
  "class_cost c OS_UBUNTU = linux c"
| "class_cost c OS_WINDOWS = windows c"
| "class_cost c OS_MACOS = macos c"

section \<open>Runner classification\<close>

definition lower_char :: "char \<Rightarrow> char" where
  \<comment> \<open>\<open>toLowerCase\<close> on one character; only the ASCII letters \<open>A\<close>..\<open>Z\<close> change\<close>
  "lower_char c =
     (let n = (of_char c :: nat) in if 65 \<le> n \<and> n \<le> 90 then char_of (n + 32) else c)"

definition toLowerCase :: "string \<Rightarrow> string" where
  "toLowerCase s = map lower_char s"

fun str_includes :: "string \<Rightarrow> string \<Rightarrow> bool" where
  \<comment> \<open>\<open>s.includes(p)\<close>: \<open>p\<close> occurs in \<open>s\<close> as a contiguous substring\<close>
  "str_includes [] p = (p = [])"
| "str_includes (c # cs) p = (prefix p (c # cs) \<or> str_includes cs p)"

definition detectRunnerOS :: "string list \<Rightarrow> runner_os" where
  "detectRunnerOS labels =
     (let labelsLower = map toLowerCase labels in
      if list_ex (\<lambda>l. str_includes l ''macos'' \<or> str_includes l ''mac-os'') labelsLower then OS_MACOS
      else if list_ex (\<lambda>l. str_includes l ''windows'') labelsLower then OS_WINDOWS
      else OS_UBUNTU)"

section \<open>Cost of a job list\<close>

text \<open>
  A job's \<open>started_at\<close> and \<open>completed_at\<close> are ISO time stamps or \<open>null\<close>. A time stamp
  is modelled by the value of \<open>new Date(s).getTime()\<close>, its milliseconds since the epoch;
  \<open>None\<close> stands for \<open>null\<close> (and for the empty string, which is falsy as well).
  \<open>labels\<close> is \<open>None\<close> when the field is missing, which \<open>job.labels || []\<close> turns into
  the empty list.
\<close>

record Job =
  started_at :: "int option"
  completed_at :: "int option"
  labels :: "string list option"

definition add_minutes :: "runner_os \<Rightarrow> rat \<Rightarrow> CostBreakdown \<Rightarrow> CostBreakdown" where
  \<comment> \<open>\<open>breakdown[os].minutes += m\<close>\<close>
  "add_minutes os m b =
     (case os of
        OS_UBUNTU \<Rightarrow> b\<lparr>UBUNTU := (UBUNTU b)\<lparr>minutes := minutes (UBUNTU b) + m\<rparr>\<rparr>
      | OS_WINDOWS \<Rightarrow> b\<lparr>WINDOWS := (WINDOWS b)\<lparr>minutes := minutes (WINDOWS b) + m\<rparr>\<rparr>
      | OS_MACOS \<Rightarrow> b\<lparr>MACOS := (MACOS b)\<lparr>minutes := minutes (MACOS b) + m\<rparr>\<rparr>)"

definition add_cost :: "runner_os \<Rightarrow> rat \<Rightarrow> CostBreakdown \<Rightarrow> CostBreakdown" where
  \<comment> \<open>\<open>breakdown[os].cost += x\<close>\<close>
  "add_cost os x b =
     (case os of
        OS_UBUNTU \<Rightarrow> b\<lparr>UBUNTU := (UBUNTU b)\<lparr>cost := cost (UBUNTU b) + x\<rparr>\<rparr>
      | OS_WINDOWS \<Rightarrow> b\<lparr>WINDOWS := (WINDOWS b)\<lparr>cost := cost (WINDOWS b) + x\<rparr>\<rparr>
      | OS_MACOS \<Rightarrow> b\<lparr>MACOS := (MACOS b)\<lparr>cost := cost (MACOS b) + x\<rparr>\<rparr>)"

definition job_step :: "CostResult \<Rightarrow> Job \<Rightarrow> CostResult" where
  \<comment> \<open>one iteration of the loop over the jobs\<close>
  "job_step costs job =
     (case (started_at job, completed_at job) of
        (Some startTime, Some endTime) \<Rightarrow>
          (let durationMs = endTime - startTime;
               mins = rat_of_int durationMs / 1000 / 60;
               os = detectRunnerOS (case labels job of Some ls \<Rightarrow> ls | None \<Rightarrow> []);
               costs1 = costs\<lparr>breakdown := add_minutes os mins (breakdown costs)\<rparr>
           in case os of
                OS_UBUNTU \<Rightarrow>
                  costs1\<lparr>breakdown := add_cost os (mins * PRICING_LINUX) (breakdown costs1),
                         linux := linux costs1 + mins * PRICING_LINUX\<rparr>
              | OS_WINDOWS \<Rightarrow>
                  costs1\<lparr>breakdown := add_cost os (mins * PRICING_WINDOWS) (breakdown costs1),
                         windows := windows costs1 + mins * PRICING_WINDOWS\<rparr>
              | OS_MACOS \<Rightarrow>
                  costs1\<lparr>breakdown := add_cost os (mins * PRICING_MACOS) (breakdown costs1),
                         macos := macos costs1 + mins * PRICING_MACOS\<rparr>)
      | _ \<Rightarrow> costs)"

definition set_total :: "CostResult \<Rightarrow> CostResult" where
  \<comment> \<open>\<open>costs.total = costs.linux + costs.windows + costs.macos\<close>\<close>
  "set_total costs = costs\<lparr>total := linux costs + windows costs + macos costs\<rparr>"

definition calculateCostFromJobs :: "Job list \<Rightarrow> CostResult" where
  "calculateCostFromJobs jobs = set_total (foldl job_step zero_costs jobs)"

section \<open>Cost of an authoritative usage record\<close>

text \<open>
  The usage response carries \<open>billable\<close>, an object from keys to \<open>{ total_ms: number }\<close>,
  or no such field. The object is an association list read through \<open>map_of\<close> (a property
  access \<open>billable.UBUNTU\<close> is \<open>map_of b ''UBUNTU''\<close>) and \<open>Object.keys\<close> is \<open>map fst\<close>.
  Every entry is taken well-typed, as the API's schema declares it: an object with a numeric
  \<open>total_ms\<close>. The guards \<open>osData && typeof osData === "object" && "total_ms" in osData\<close>
  therefore hold for every entry that is present.
\<close>

record os_usage =
  total_ms :: rat

type_synonym billable_obj = "(string \<times> os_usage) list"

record timing =
  billable :: "billable_obj option"

definition billable_or_empty :: "timing \<Rightarrow> billable_obj" where
  \<comment> \<open>\<open>timing.billable || {}\<close>\<close>
  "billable_or_empty t = (case billable t of Some b \<Rightarrow> b | None \<Rightarrow> [])"

definition charge_UBUNTU :: "billable_obj \<Rightarrow> CostResult \<Rightarrow> CostResult" where
  "charge_UBUNTU b costs =
     (case map_of b ''UBUNTU'' of
        Some u \<Rightarrow>
          (let mins = total_ms u / 1000 / 60 in
           costs\<lparr>breakdown := (breakdown costs)\<lparr>UBUNTU := \<lparr>minutes = mins, cost = mins * PRICING_LINUX\<rparr>\<rparr>,
                 linux := mins * PRICING_LINUX\<rparr>)
      | None \<Rightarrow> costs)"

definition charge_WINDOWS :: "billable_obj \<Rightarrow> CostResult \<Rightarrow> CostResult" where
  "charge_WINDOWS b costs =
     (case map_of b ''WINDOWS'' of
        Some u \<Rightarrow>
          (let mins = total_ms u / 1000 / 60 in
           costs\<lparr>breakdown := (breakdown costs)\<lparr>WINDOWS := \<lparr>minutes = mins, cost = mins * PRICING_WINDOWS\<rparr>\<rparr>,
                 windows := mins * PRICING_WINDOWS\<rparr>)
      | None \<Rightarrow> costs)"

definition charge_MACOS :: "billable_obj \<Rightarrow> CostResult \<Rightarrow> CostResult" where
  "charge_MACOS b costs =
     (case map_of b ''MACOS'' of
        Some u \<Rightarrow>
          (let mins = total_ms u / 1000 / 60 in
           costs\<lparr>breakdown := (breakdown costs)\<lparr>MACOS := \<lparr>minutes = mins, cost = mins * PRICING_MACOS\<rparr>\<rparr>,
                 macos := mins * PRICING_MACOS\<rparr>)
      | None \<Rightarrow> costs)"

definition cost_of_billable :: "billable_obj \<Rightarrow> CostResult" where
  \<comment> \<open>the three \<open>if\<close> blocks and the total, the same in \<open>calculateCost\<close> and in \<open>calculateRepoCost\<close>\<close>
  "cost_of_billable b = set_total (charge_MACOS b (charge_WINDOWS b (charge_UBUNTU b zero_costs)))"

definition calculateCost :: "timing \<Rightarrow> CostResult" where
  "calculateCost t = cost_of_billable (billable_or_empty t)"

fun scan_keys :: "billable_obj \<Rightarrow> string list \<Rightarrow> bool" where
  \<comment> \<open>the loop over \<open>Object.keys(billable)\<close> that sets \<open>hasBillableData\<close> and breaks\<close>
  "scan_keys b [] = False"
| "scan_keys b (osKey # ks) =
     (case map_of b osKey of
        Some osData \<Rightarrow> if 0 < total_ms osData then True else scan_keys b ks
      | None \<Rightarrow> scan_keys b ks)"

definition hasBillableData :: "billable_obj \<Rightarrow> bool" where
  "hasBillableData b = scan_keys b (map fst b)"

datatype js_error = Error string | RequestError nat | RangeError string

definition billable_cost :: "timing \<Rightarrow> js_error + CostResult" where
  \<comment> \<open>the authoritative step of \<open>calculateRepoCost\<close>, from the usage response to \<open>cost\<close>\<close>
  "billable_cost t =
     (let b = billable_or_empty t in
      if \<not> hasBillableData b then Inl (Error ''No billable data'')
      else Inr (cost_of_billable b))"

definition cli_falls_back :: "timing \<Rightarrow> bool" where
  \<comment> \<open>the command-line tool's test after \<open>calculateCost\<close>: \<open>cost.total === 0\<close>\<close>
  "cli_falls_back t = (total (calculateCost t) = 0)"

section \<open>The cost functions in double arithmetic\<close>

text \<open>
  The cost functions once more, with every arithmetic operation of the source rounded to a
  double. A numeric literal is the double nearest to it, so \<open>PRICING.LINUX\<close> is
  \<open>round64 (8 / 1000)\<close>. The durations and time values that come in are doubles already.
\<close>

definition PRICING_LINUX_d :: rat where "PRICING_LINUX_d = round64 (8 / 1000)"
definition PRICING_WINDOWS_d :: rat where "PRICING_WINDOWS_d = round64 (16 / 1000)"
definition PRICING_MACOS_d :: rat where "PRICING_MACOS_d = round64 (8 / 100)"

fun rate_d :: "runner_os \<Rightarrow> rat" where
  "rate_d OS_UBUNTU = PRICING_LINUX_d"
| "rate_d OS_WINDOWS = PRICING_WINDOWS_d"
| "rate_d OS_MACOS = PRICING_MACOS_d"

definition charge_UBUNTU_d :: "billable_obj \<Rightarrow> CostResult \<Rightarrow> CostResult" where
  "charge_UBUNTU_d b costs =
     (case map_of b ''UBUNTU'' of
        Some u \<Rightarrow>
          (let mins = fl_div (fl_div (total_ms u) 1000) 60 in
           costs\<lparr>breakdown := (breakdown costs)\<lparr>UBUNTU := \<lparr>minutes = mins, cost = fl_mul mins PRICING_LINUX_d\<rparr>\<rparr>,
                 linux := fl_mul mins PRICING_LINUX_d\<rparr>)
      | None \<Rightarrow> costs)"

definition charge_WINDOWS_d :: "billable_obj \<Rightarrow> CostResult \<Rightarrow> CostResult" where
  "charge_WINDOWS_d b costs =
     (case map_of b ''WINDOWS'' of
        Some u \<Rightarrow>
          (let mins = fl_div (fl_div (total_ms u) 1000) 60 in
           costs\<lparr>breakdown := (breakdown costs)\<lparr>WINDOWS := \<lparr>minutes = mins, cost = fl_mul mins PRICING_WINDOWS_d\<rparr>\<rparr>,
                 windows := fl_mul mins PRICING_WINDOWS_d\<rparr>)
      | None \<Rightarrow> costs)"

definition charge_MACOS_d :: "billable_obj \<Rightarrow> CostResult \<Rightarrow> CostResult" where
  "charge_MACOS_d b costs =
     (case map_of b ''MACOS'' of
        Some u \<Rightarrow>
          (let mins = fl_div (fl_div (total_ms u) 1000) 60 in
           costs\<lparr>breakdown := (breakdown costs)\<lparr>MACOS := \<lparr>minutes = mins, cost = fl_mul mins PRICING_MACOS_d\<rparr>\<rparr>,
                 macos := fl_mul mins PRICING_MACOS_d\<rparr>)
      | None \<Rightarrow> costs)"

definition set_total_d :: "CostResult \<Rightarrow> CostResult" where
  \<comment> \<open>\<open>costs.total = costs.linux + costs.windows + costs.macos\<close>, added from the left\<close>
  "set_total_d costs = costs\<lparr>total := fl_add (fl_add (linux costs) (windows costs)) (macos costs)\<rparr>"

definition cost_of_billable_d :: "billable_obj \<Rightarrow> CostResult" where
  "cost_of_billable_d b =
     set_total_d (charge_MACOS_d b (charge_WINDOWS_d b (charge_UBUNTU_d b zero_costs)))"

definition calculateCost_d :: "timing \<Rightarrow> CostResult" where
  "calculateCost_d t = cost_of_billable_d (billable_or_empty t)"

definition billable_cost_d :: "timing \<Rightarrow> js_error + CostResult" where
  "billable_cost_d t =
     (let b = billable_or_empty t in
      if \<not> hasBillableData b then Inl (Error ''No billable data'')
      else Inr (cost_of_billable_d b))"

definition add_minutes_d :: "runner_os \<Rightarrow> rat \<Rightarrow> CostBreakdown \<Rightarrow> CostBreakdown" where
  "add_minutes_d os m b =
     (case os of
        OS_UBUNTU \<Rightarrow> b\<lparr>UBUNTU := (UBUNTU b)\<lparr>minutes := fl_add (minutes (UBUNTU b)) m\<rparr>\<rparr>
      | OS_WINDOWS \<Rightarrow> b\<lparr>WINDOWS := (WINDOWS b)\<lparr>minutes := fl_add (minutes (WINDOWS b)) m\<rparr>\<rparr>
      | OS_MACOS \<Rightarrow> b\<lparr>MACOS := (MACOS b)\<lparr>minutes := fl_add (minutes (MACOS b)) m\<rparr>\<rparr>)"

definition add_cost_d :: "runner_os \<Rightarrow> rat \<Rightarrow> CostBreakdown \<Rightarrow> CostBreakdown" where
  "add_cost_d os x b =
     (case os of
        OS_UBUNTU \<Rightarrow> b\<lparr>UBUNTU := (UBUNTU b)\<lparr>cost := fl_add (cost (UBUNTU b)) x\<rparr>\<rparr>
      | OS_WINDOWS \<Rightarrow> b\<lparr>WINDOWS := (WINDOWS b)\<lparr>cost := fl_add (cost (WINDOWS b)) x\<rparr>\<rparr>
      | OS_MACOS \<Rightarrow> b\<lparr>MACOS := (MACOS b)\<lparr>cost := fl_add (cost (MACOS b)) x\<rparr>\<rparr>)"

definition job_step_d :: "CostResult \<Rightarrow> Job \<Rightarrow> CostResult" where
  "job_step_d costs job =
     (case (started_at job, completed_at job) of
        (Some startTime, Some endTime) \<Rightarrow>
          (let durationMs = fl_sub (rat_of_int endTime) (rat_of_int startTime);
               mins = fl_div (fl_div durationMs 1000) 60;
               os = detectRunnerOS (case labels job of Some ls \<Rightarrow> ls | None \<Rightarrow> []);
               costs1 = costs\<lparr>breakdown := add_minutes_d os mins (breakdown costs)\<rparr>
           in case os of
                OS_UBUNTU \<Rightarrow>
                  costs1\<lparr>breakdown := add_cost_d os (fl_mul mins PRICING_LINUX_d) (breakdown costs1),
                         linux := fl_add (linux costs1) (fl_mul mins PRICING_LINUX_d)\<rparr>
              | OS_WINDOWS \<Rightarrow>
                  costs1\<lparr>breakdown := add_cost_d os (fl_mul mins PRICING_WINDOWS_d) (breakdown costs1),
                         windows := fl_add (windows costs1) (fl_mul mins PRICING_WINDOWS_d)\<rparr>
              | OS_MACOS \<Rightarrow>
                  costs1\<lparr>breakdown := add_cost_d os (fl_mul mins PRICING_MACOS_d) (breakdown costs1),
                         macos := fl_add (macos costs1) (fl_mul mins PRICING_MACOS_d)\<rparr>)
      | _ \<Rightarrow> costs)"

definition calculateCostFromJobs_d :: "Job list \<Rightarrow> CostResult" where
  "calculateCostFromJobs_d jobs = set_total_d (foldl job_step_d zero_costs jobs)"

section \<open>The date of the filter\<close>

text \<open>
  \<open>getDateDaysAgo(days)\<close> takes the current date, sets its day of the month to
  \<open>getDate() - days\<close> and prints the date part of \<open>toISOString()\<close>. The clock is an input: the
  time value of \<open>new Date()\<close> in milliseconds and its local day of the month. \<open>setDate\<close> moves
  the time value by whole days (the arithmetic of \<open>MakeDay\<close> and \<open>MakeDate\<close>, the offset of the
  local zone being the same at both dates) and \<open>TimeClip\<close> makes the date invalid beyond
  8.64e15 ms from the epoch; \<open>toISOString\<close> throws a \<open>RangeError\<close> on an invalid date. The
  date string is modelled by the day number it prints, the time value divided by the
  milliseconds of a day.
\<close>

record clock =
  time_value :: int
  local_date :: int

definition msPerDay :: int where "msPerDay = 86400000"

definition ToIntegerOrInfinity :: "rat \<Rightarrow> int" where
  \<comment> \<open>truncation toward zero of a finite number\<close>
  "ToIntegerOrInfinity x = (if 0 \<le> x then \<lfloor>x\<rfloor> else \<lceil>x\<rceil>)"

definition TimeClip :: "int \<Rightarrow> int option" where
  \<comment> \<open>\<open>None\<close> is the time value \<open>NaN\<close> of an invalid date\<close>
  "TimeClip t = (if 8640000000000000 < \<bar>t\<bar> then None else Some t)"

definition date_minus_days :: "clock \<Rightarrow> jsnum \<Rightarrow> jsnum" where
  \<comment> \<open>\<open>date.getDate() - days\<close>\<close>
  "date_minus_days clk days =
     (case days of
        Finite d \<Rightarrow> Finite (fl_sub (of_int (local_date clk)) d)
      | NegZero \<Rightarrow> Finite (of_int (local_date clk))
      | PosInfinity \<Rightarrow> NegInfinity
      | NegInfinity \<Rightarrow> PosInfinity
      | NaN \<Rightarrow> NaN)"

definition setDate :: "clock \<Rightarrow> jsnum \<Rightarrow> int option" where
  \<comment> \<open>the time value after \<open>date.setDate(dt)\<close>\<close>
  "setDate clk dt =
     (case dt of
        Finite x \<Rightarrow>
          TimeClip (time_value clk + (ToIntegerOrInfinity x - local_date clk) * msPerDay)
      | NegZero \<Rightarrow> TimeClip (time_value clk + (0 - local_date clk) * msPerDay)
      | _ \<Rightarrow> None)"

definition toISOString_date :: "int option \<Rightarrow> js_error + int" where
  \<comment> \<open>\<open>date.toISOString().split("T")[0]\<close>\<close>
  "toISOString_date tv =
     (case tv of
        None \<Rightarrow> Inl (RangeError ''Invalid time value'')
      | Some t \<Rightarrow> Inr (t div msPerDay))"

definition getDateDaysAgo :: "clock \<Rightarrow> jsnum \<Rightarrow> js_error + int" where
  "getDateDaysAgo clk days = toISOString_date (setDate clk (date_minus_days clk days))"

section \<open>Aggregation over the runs of a repository\<close>

text \<open>
  The GitHub client is a record of the three requests \<open>calculateRepoCost\<close> makes, each
  returning its data or failing. The listing of the completed runs takes the date of the
  filter; a run is its \<open>id\<close>.
\<close>

record github =
  listWorkflowRunsForRepo :: "int \<Rightarrow> js_error + nat list"
  getWorkflowRunUsage :: "nat \<Rightarrow> js_error + timing"
  listJobsForWorkflowRun :: "nat \<Rightarrow> js_error + Job list"

definition run_cost :: "github \<Rightarrow> nat \<Rightarrow> js_error + CostResult" where
  \<comment> \<open>the inner \<open>try\<close>/\<open>catch\<close>: usage first, any failure there falls back to the jobs\<close>
  "run_cost gh run_id =
     (case (case getWorkflowRunUsage gh run_id of
              Inl e \<Rightarrow> Inl e
            | Inr t \<Rightarrow> billable_cost t) of
        Inr c \<Rightarrow> Inr c
      | Inl _ \<Rightarrow>
          (case listJobsForWorkflowRun gh run_id of
             Inl e \<Rightarrow> Inl e
           | Inr jobs \<Rightarrow> Inr (calculateCostFromJobs jobs)))"

record run_totals =
  totalLinuxMinutes :: rat
  totalWindowsMinutes :: rat
  totalMacOSMinutes :: rat
  totalCost :: rat
  analyzedRuns_var :: nat

definition no_totals :: run_totals where
  "no_totals = \<lparr>totalLinuxMinutes = 0, totalWindowsMinutes = 0, totalMacOSMinutes = 0,
                totalCost = 0, analyzedRuns_var = 0\<rparr>"

definition process_run :: "github \<Rightarrow> run_totals \<Rightarrow> nat \<Rightarrow> run_totals" where
  \<comment> \<open>the outer \<open>try\<close>/\<open>catch\<close>: a failure is logged and leaves the totals as they were\<close>
  "process_run gh acc run_id =
     (case run_cost gh run_id of
        Inr c \<Rightarrow>
          acc\<lparr>totalLinuxMinutes := totalLinuxMinutes acc + minutes (UBUNTU (breakdown c)),
              totalWindowsMinutes := totalWindowsMinutes acc + minutes (WINDOWS (breakdown c)),
              totalMacOSMinutes := totalMacOSMinutes acc + minutes (MACOS (breakdown c)),
              totalCost := totalCost acc + total c,
              analyzedRuns_var := analyzedRuns_var acc + 1\<rparr>
      | Inl e \<Rightarrow> acc)"

record CalculationResult =
  slug :: string
  owner :: string
  repo :: string
  daysAnalyzed :: jsnum
  totalRuns :: nat
  analyzedRuns :: nat
  linuxMinutes :: rat
  windowsMinutes :: rat
  macosMinutes :: rat
  actualCost :: rat
  monthlyCost :: jsnum
  yearlyCost :: jsnum

definition summarize :: "string \<Rightarrow> string \<Rightarrow> jsnum \<Rightarrow> nat list \<Rightarrow> run_totals \<Rightarrow> CalculationResult" where
  \<comment> \<open>the projections and the returned object\<close>
  "summarize ow rp days allRuns acc =
     (let monthlyMultiplier = js_divide 30 days;
          yearlyMultiplier = js_divide 365 days
      in \<lparr>slug = ow @ ''/'' @ rp, owner = ow, repo = rp,
          daysAnalyzed = days,
          totalRuns = length allRuns,
          analyzedRuns = analyzedRuns_var acc,
          linuxMinutes = totalLinuxMinutes acc,
          windowsMinutes = totalWindowsMinutes acc,
          macosMinutes = totalMacOSMinutes acc,
          actualCost = totalCost acc,
          monthlyCost = js_times (totalCost acc) monthlyMultiplier,
          yearlyCost = js_times (totalCost acc) yearlyMultiplier\<rparr>)"

definition calculateRepoCost ::
  "clock \<Rightarrow> github \<Rightarrow> string \<Rightarrow> string \<Rightarrow> jsnum \<Rightarrow> js_error + CalculationResult" where
  "calculateRepoCost clk gh ow rp days =
     (case getDateDaysAgo clk days of
        Inl e \<Rightarrow> Inl e
      | Inr dateFilter \<Rightarrow>
          (case listWorkflowRunsForRepo gh dateFilter of
             Inl e \<Rightarrow> Inl e
           | Inr allRuns \<Rightarrow>
               Inr (summarize ow rp days allRuns (foldl (process_run gh) no_totals allRuns))))"

section \<open>Notions the properties are stated with\<close>

text \<open>
  The usage record is keyed by strings; \<open>os_key\<close> gives the key of each OS class.
  \<open>usage_minutes\<close> is what a class's entry amounts to in minutes (milliseconds divided by
  60000, zero when the entry is absent), \<open>job_minutes\<close> what a job amounts to (zero when a
  time stamp is missing), and \<open>class_minutes\<close> the sum over the jobs of one class.
  \<open>breakdown_ok\<close> is the invariant of a cost breakdown in exact arithmetic; in double
  arithmetic it falls into \<open>total_ok_d\<close> (the total is the sum of the per-class costs) and
  \<open>class_cost_ok_d\<close> (each per-class cost is minutes times rate). \<open>job_minutes_d\<close> and
  \<open>class_jobs\<close> give a job's minutes in doubles and the stamped jobs of a class.
  \<open>job_fetch_fails\<close> says that the job request of a run is made (the usage step gave no
  cost) and fails. A \<open>valid_clock\<close> shows a valid date.
\<close>

fun os_key :: "runner_os \<Rightarrow> string" where
  "os_key OS_UBUNTU = ''UBUNTU''"
| "os_key OS_WINDOWS = ''WINDOWS''"
| "os_key OS_MACOS = ''MACOS''"

definition usage_minutes :: "billable_obj \<Rightarrow> runner_os \<Rightarrow> rat" where
  "usage_minutes b c = (case map_of b (os_key c) of Some u \<Rightarrow> total_ms u / 60000 | None \<Rightarrow> 0)"

definition job_os :: "Job \<Rightarrow> runner_os" where
  "job_os job = detectRunnerOS (case labels job of Some ls \<Rightarrow> ls | None \<Rightarrow> [])"

definition job_minutes :: "Job \<Rightarrow> rat" where
  "job_minutes job =
     (case (started_at job, completed_at job) of
        (Some s, Some e) \<Rightarrow> rat_of_int (e - s) / 60000
      | _ \<Rightarrow> 0)"

definition class_minutes :: "runner_os \<Rightarrow> Job list \<Rightarrow> rat" where
  "class_minutes c jobs = sum_list (map job_minutes (filter (\<lambda>j. job_os j = c) jobs))"

definition breakdown_ok :: "CostResult \<Rightarrow> bool" where
  "breakdown_ok r \<longleftrightarrow>
     total r = cost (UBUNTU (breakdown r)) + cost (WINDOWS (breakdown r)) + cost (MACOS (breakdown r))
     \<and> cost (UBUNTU (breakdown r)) = minutes (UBUNTU (breakdown r)) * PRICING_LINUX
     \<and> cost (WINDOWS (breakdown r)) = minutes (WINDOWS (breakdown r)) * PRICING_WINDOWS
     \<and> cost (MACOS (breakdown r)) = minutes (MACOS (breakdown r)) * PRICING_MACOS"

definition job_fetch_fails :: "github \<Rightarrow> nat \<Rightarrow> bool" where
  "job_fetch_fails gh run_id =
     ((case getWorkflowRunUsage gh run_id of
         Inl _ \<Rightarrow> True
       | Inr t \<Rightarrow> \<not> hasBillableData (billable_or_empty t))
      \<and> (case listJobsForWorkflowRun gh run_id of Inl _ \<Rightarrow> True | Inr _ \<Rightarrow> False))"

definition job_minutes_d :: "Job \<Rightarrow> rat" where
  "job_minutes_d job =
     (case (started_at job, completed_at job) of
        (Some s, Some e) \<Rightarrow> fl_div (fl_div (fl_sub (rat_of_int e) (rat_of_int s)) 1000) 60
      | _ \<Rightarrow> 0)"

definition class_jobs :: "runner_os \<Rightarrow> Job list \<Rightarrow> Job list" where
  "class_jobs c jobs =
     filter (\<lambda>j. started_at j \<noteq> None \<and> completed_at j \<noteq> None \<and> job_os j = c) jobs"

definition total_ok_d :: "CostResult \<Rightarrow> bool" where
  "total_ok_d r \<longleftrightarrow>
     total r = fl_add (fl_add (cost (UBUNTU (breakdown r))) (cost (WINDOWS (breakdown r))))
                 (cost (MACOS (breakdown r)))
     \<and> linux r = cost (UBUNTU (breakdown r))
     \<and> windows r = cost (WINDOWS (breakdown r))
     \<and> macos r = cost (MACOS (breakdown r))"

definition class_cost_ok_d :: "CostResult \<Rightarrow> bool" where
  "class_cost_ok_d r \<longleftrightarrow>
     cost (UBUNTU (breakdown r)) = fl_mul (minutes (UBUNTU (breakdown r))) PRICING_LINUX_d
     \<and> cost (WINDOWS (breakdown r)) = fl_mul (minutes (WINDOWS (breakdown r))) PRICING_WINDOWS_d
     \<and> cost (MACOS (breakdown r)) = fl_mul (minutes (MACOS (breakdown r))) PRICING_MACOS_d"

definition valid_clock :: "clock \<Rightarrow> bool" where
  "valid_clock clk \<longleftrightarrow>
     \<bar>time_value clk\<bar> \<le> 8640000000000000 \<and> 1 \<le> local_date clk \<and> local_date clk \<le> 31"

section \<open>Example inputs\<close>

definition one_minute_job :: Job where
  "one_minute_job =
     \<lparr>started_at = Some 0, completed_at = Some 60000, labels = Some [''ubuntu-latest'']\<rparr>"

definition gh_ten_runs :: github where
  "gh_ten_runs =
     \<lparr>listWorkflowRunsForRepo = (\<lambda>dateFilter. Inr [1, 2, 3, 4, 5, 6, 7, 8, 9, 10]),
      getWorkflowRunUsage = (\<lambda>run_id. Inl (RequestError 404)),
      listJobsForWorkflowRun =
        (\<lambda>run_id. if run_id = 3 \<or> run_id = 6 \<or> run_id = 9 then Inl (RequestError 502)
                   else Inr [one_minute_job])\<rparr>"

definition jobs_7s_11s :: "Job list" where
  "jobs_7s_11s =
     [\<lparr>started_at = Some 0, completed_at = Some 7000, labels = Some [''ubuntu-latest'']\<rparr>,
      \<lparr>started_at = Some 0, completed_at = Some 11000, labels = Some [''ubuntu-latest'']\<rparr>]"

definition clock_2025_11_03 :: clock where
  \<comment> \<open>3 November 2025, 12:00 UTC\<close>
  "clock_2025_11_03 = \<lparr>time_value = 1762171200000, local_date = 3\<rparr>"

definition gh_one_run :: "billable_obj \<Rightarrow> github" where
  "gh_one_run b =
     \<lparr>listWorkflowRunsForRepo = (\<lambda>dateFilter. Inr [1]),
      getWorkflowRunUsage = (\<lambda>run_id. Inr \<lparr>billable = Some b\<rparr>),
      listJobsForWorkflowRun = (\<lambda>run_id. Inl (RequestError 502))\<rparr>"

section \<open>Properties of the runner classification\<close>

lemma str_includes_iff_sublist: "str_includes s p \<longleftrightarrow> sublist p s"
  by (induction s) (simp_all add: sublist_Cons_right)

lemma list_ex_map_iff: "list_ex P (map f xs) \<longleftrightarrow> (\<exists>x\<in>set xs. P (f x))"
  by (simp add: list_ex_iff)

lemma detect_ubuntu_latest: "detectRunnerOS [''ubuntu-latest''] = OS_UBUNTU"
  by code_simp

lemma detect_examples:
  "detectRunnerOS [''windows-2022''] = OS_WINDOWS"
  "detectRunnerOS [''self-hosted'', ''macos-14''] = OS_MACOS"
  "detectRunnerOS [''Windows-2022'', ''macOS-14''] = OS_MACOS"
  "detectRunnerOS [''MAC-OS'', ''windows''] = OS_MACOS"
  by code_simp+

lemma lower_examples:
  "toLowerCase ''Windows-2022'' = ''windows-2022''"
  "toLowerCase ''macOS-14'' = ''macos-14''"
  by code_simp+

lemma sublist_examples:
  "sublist ''macos'' ''macos-14''"
  "\<not> sublist ''macos'' ''windows-2022''"
  "\<not> sublist ''mac-os'' ''windows-2022''"
  "sublist ''windows'' ''windows-2022''"
  by code_simp+

text \<open>
  Claim C6. For every list of labels, \<open>detectRunnerOS\<close> lower-cases every label and returns
  MACOS if some label contains \<open>macos\<close> or \<open>mac-os\<close>, else WINDOWS if some label contains
  \<open>windows\<close>, else UBUNTU (the Linux class). The mac test comes first, the empty list gives
  UBUNTU, and the function is total.
\<close>

theorem detectRunnerOS_first_match:
  "detectRunnerOS ls =
     (if \<exists>l\<in>set ls. sublist ''macos'' (toLowerCase l) \<or> sublist ''mac-os'' (toLowerCase l)
      then OS_MACOS
      else if \<exists>l\<in>set ls. sublist ''windows'' (toLowerCase l) then OS_WINDOWS
      else OS_UBUNTU)
   \<and> detectRunnerOS [] = OS_UBUNTU"
  unfolding detectRunnerOS_def Let_def list_ex_map_iff str_includes_iff_sublist
  by simp

text \<open>
  At a label list with both a Windows and a macOS label the result is MACOS; with the Windows
  label alone it is WINDOWS.
\<close>

theorem detectRunnerOS_first_match_witness:
  "detectRunnerOS [''Windows-2022'', ''macOS-14''] = OS_MACOS
   \<and> detectRunnerOS [''Windows-2022''] = OS_WINDOWS"
  using detectRunnerOS_first_match [of "[''Windows-2022'', ''macOS-14'']"] detectRunnerOS_first_match [of "[''Windows-2022'']"]
  by (simp add: lower_examples sublist_examples)

section \<open>Properties of the cost of a job list\<close>

lemma bucket_add_minutes:
  "bucket (add_minutes os m b) c =
     (if c = os then (bucket b c)\<lparr>minutes := minutes (bucket b c) + m\<rparr> else bucket b c)"
  by (cases os; cases c) (simp_all add: add_minutes_def)

lemma bucket_add_cost:
  "bucket (add_cost os x b) c =
     (if c = os then (bucket b c)\<lparr>cost := cost (bucket b c) + x\<rparr> else bucket b c)"
  by (cases os; cases c) (simp_all add: add_cost_def)

lemma job_step_skip:
  "started_at job = None \<or> completed_at job = None \<Longrightarrow> job_step costs job = costs"
  by (auto simp: job_step_def split: option.splits)

lemma job_step_timed:
  assumes "started_at job = Some s" "completed_at job = Some e"
  shows "breakdown (job_step costs job) =
           add_cost (job_os job) (rat_of_int (e - s) / 60000 * rate (job_os job))
             (add_minutes (job_os job) (rat_of_int (e - s) / 60000) (breakdown costs))"
    and "class_cost (job_step costs job) c =
           class_cost costs c + (if c = job_os job then rat_of_int (e - s) / 60000 * rate c else 0)"
  using assms
  by (cases "detectRunnerOS (case labels job of Some ls \<Rightarrow> ls | None \<Rightarrow> [])"; cases c;
      simp add: job_step_def job_os_def Let_def)+

lemma job_step_bucket:
  "bucket (breakdown (job_step costs job)) c =
     (if c = job_os job
      then \<lparr>minutes = minutes (bucket (breakdown costs) c) + job_minutes job,
            cost = cost (bucket (breakdown costs) c) + job_minutes job * rate c\<rparr>
      else bucket (breakdown costs) c)"
proof (cases "started_at job")
  case None
  then show ?thesis by (simp add: job_step_skip job_minutes_def)
next
  case (Some s)
  note s = this
  show ?thesis
  proof (cases "completed_at job")
    case None
    then show ?thesis by (simp add: job_step_skip job_minutes_def s)
  next
    case (Some e)
    then show ?thesis
      by (simp add: job_step_timed(1) [OF s Some] bucket_add_cost bucket_add_minutes
          job_minutes_def s)
  qed
qed

lemma job_step_class_cost:
  "class_cost (job_step costs job) c =
     class_cost costs c + (if c = job_os job then job_minutes job * rate c else 0)"
proof (cases "started_at job")
  case None
  then show ?thesis by (simp add: job_step_skip job_minutes_def)
next
  case (Some s)
  note s = this
  show ?thesis
  proof (cases "completed_at job")
    case None
    then show ?thesis by (simp add: job_step_skip job_minutes_def s)
  next
    case (Some e)
    then show ?thesis
      by (simp add: job_step_timed(2) [OF s Some] job_minutes_def s)
  qed
qed

lemma foldl_job_step_bucket:
  "bucket (breakdown (foldl job_step costs jobs)) c =
     \<lparr>minutes = minutes (bucket (breakdown costs) c) + class_minutes c jobs,
      cost = cost (bucket (breakdown costs) c) + class_minutes c jobs * rate c\<rparr>"
proof (induction jobs arbitrary: costs)
  case Nil
  show ?case by (simp add: class_minutes_def)
next
  case (Cons j js)
  show ?case
    by (simp add: Cons.IH job_step_bucket class_minutes_def algebra_simps)
qed

lemma foldl_job_step_class_cost:
  "class_cost (foldl job_step costs jobs) c = class_cost costs c + class_minutes c jobs * rate c"
proof (induction jobs arbitrary: costs)
  case Nil
  show ?case by (simp add: class_minutes_def)
next
  case (Cons j js)
  show ?case
    by (simp add: Cons.IH job_step_class_cost class_minutes_def algebra_simps)
qed

lemma breakdown_set_total [simp]: "breakdown (set_total c) = breakdown c"
  and class_cost_set_total [simp]: "class_cost (set_total c) k = class_cost c k"
  and total_set_total: "total (set_total c) = linux c + windows c + macos c"
  by (cases k; simp add: set_total_def)+

lemma bucket_zero_costs [simp]: "bucket (breakdown zero_costs) c = \<lparr>minutes = 0, cost = 0\<rparr>"
  and class_cost_zero_costs [simp]: "class_cost zero_costs c = 0"
  by (cases c; simp add: zero_costs_def)+

lemma calculateCostFromJobs_bucket:
  "bucket (breakdown (calculateCostFromJobs jobs)) c =
     \<lparr>minutes = class_minutes c jobs, cost = class_minutes c jobs * rate c\<rparr>"
  by (simp add: calculateCostFromJobs_def foldl_job_step_bucket)

lemma calculateCostFromJobs_class_cost:
  "class_cost (calculateCostFromJobs jobs) c = class_minutes c jobs * rate c"
  by (simp add: calculateCostFromJobs_def foldl_job_step_class_cost)

lemma calculateCostFromJobs_total:
  "total (calculateCostFromJobs jobs) =
     class_minutes OS_UBUNTU jobs * rate OS_UBUNTU
     + class_minutes OS_WINDOWS jobs * rate OS_WINDOWS
     + class_minutes OS_MACOS jobs * rate OS_MACOS"
  using foldl_job_step_class_cost [of zero_costs jobs OS_UBUNTU]
    foldl_job_step_class_cost [of zero_costs jobs OS_WINDOWS]
    foldl_job_step_class_cost [of zero_costs jobs OS_MACOS]
  by (simp add: calculateCostFromJobs_def total_set_total zero_costs_def)

lemma foldl_job_step_filter:
  "foldl job_step costs (filter (\<lambda>j. started_at j \<noteq> None \<and> completed_at j \<noteq> None) jobs) =
     foldl job_step costs jobs"
  by (induction jobs arbitrary: costs) (auto simp: job_step_skip)

lemma calculateCostFromJobs_filter:
  "calculateCostFromJobs (filter (\<lambda>j. started_at j \<noteq> None \<and> completed_at j \<noteq> None) jobs) =
     calculateCostFromJobs jobs"
  by (simp only: calculateCostFromJobs_def foldl_job_step_filter)

lemma two_jobs_example:
  "calculateCostFromJobs
     [\<lparr>started_at = None, completed_at = Some t, labels = ls\<rparr>,
      \<lparr>started_at = Some t1, completed_at = Some (t1 + 120000), labels = Some [''ubuntu-latest'']\<rparr>] =
   \<lparr>linux = 2 / 125, windows = 0, macos = 0, total = 2 / 125,
    breakdown = \<lparr>UBUNTU = \<lparr>minutes = 2, cost = 2 / 125\<rparr>,
                 WINDOWS = \<lparr>minutes = 0, cost = 0\<rparr>,
                 MACOS = \<lparr>minutes = 0, cost = 0\<rparr>\<rparr>\<rparr>"
  by (simp add: calculateCostFromJobs_def job_step_def detect_ubuntu_latest add_minutes_def
      add_cost_def zero_costs_def set_total_def PRICING_LINUX_def Let_def)

lemma one_minute_job_cost:
  "calculateCostFromJobs [one_minute_job] =
     \<lparr>linux = 1 / 125, windows = 0, macos = 0, total = 1 / 125,
      breakdown = \<lparr>UBUNTU = \<lparr>minutes = 1, cost = 1 / 125\<rparr>,
                   WINDOWS = \<lparr>minutes = 0, cost = 0\<rparr>,
                   MACOS = \<lparr>minutes = 0, cost = 0\<rparr>\<rparr>\<rparr>"
  by (simp add: calculateCostFromJobs_def job_step_def one_minute_job_def detect_ubuntu_latest
      add_minutes_def add_cost_def zero_costs_def set_total_def PRICING_LINUX_def Let_def)

text \<open>
  Claim C7. For every job list \<open>calculateCostFromJobs\<close> returns a breakdown (it has no
  failing branch): the minutes of each class are the sum, over the jobs classified into it, of
  (end - start) / 60000, where a job that lacks a time stamp counts zero; the cost of the class
  is these minutes times its rate; removing the jobs that lack a time stamp changes nothing;
  and a job without start followed by a 120000 ms job labelled \<open>ubuntu-latest\<close> gives exactly
  2 Linux minutes costing 0.016.
\<close>

theorem calculateCostFromJobs_sums:
  "bucket (breakdown (calculateCostFromJobs jobs)) c =
      \<lparr>minutes = class_minutes c jobs, cost = class_minutes c jobs * rate c\<rparr>
   \<and> class_cost (calculateCostFromJobs jobs) c = class_minutes c jobs * rate c
   \<and> calculateCostFromJobs (filter (\<lambda>j. started_at j \<noteq> None \<and> completed_at j \<noteq> None) jobs) =
       calculateCostFromJobs jobs
   \<and> calculateCostFromJobs
       [\<lparr>started_at = None, completed_at = Some t, labels = ls\<rparr>,
        \<lparr>started_at = Some t1, completed_at = Some (t1 + 120000),
         labels = Some [''ubuntu-latest'']\<rparr>] =
      \<lparr>linux = 2 / 125, windows = 0, macos = 0, total = 2 / 125,
       breakdown = \<lparr>UBUNTU = \<lparr>minutes = 2, cost = 2 / 125\<rparr>,
                    WINDOWS = \<lparr>minutes = 0, cost = 0\<rparr>,
                    MACOS = \<lparr>minutes = 0, cost = 0\<rparr>\<rparr>\<rparr>"
  by (simp only: calculateCostFromJobs_bucket calculateCostFromJobs_class_cost two_jobs_example
      calculateCostFromJobs_filter simp_thms)

text \<open>
  A job without end time followed by a one-minute Ubuntu job: one Linux minute, cost 0.008.
\<close>

theorem calculateCostFromJobs_sums_witness:
  "bucket (breakdown (calculateCostFromJobs
      [\<lparr>started_at = Some 5, completed_at = None, labels = None\<rparr>, one_minute_job])) OS_UBUNTU =
     \<lparr>minutes = 1, cost = 1 / 125\<rparr>"
proof -
  let ?j = "\<lparr>started_at = Some 5, completed_at = None, labels = None\<rparr>"
  have os: "job_os one_minute_job = OS_UBUNTU"
    by (simp add: job_os_def one_minute_job_def detect_ubuntu_latest)
  have jm: "job_minutes one_minute_job = 1" "job_minutes ?j = 0"
    by (simp_all add: job_minutes_def one_minute_job_def)
  have cm: "class_minutes OS_UBUNTU [?j, one_minute_job] = 1"
    by (simp add: class_minutes_def os jm)
  have "bucket (breakdown (calculateCostFromJobs [?j, one_minute_job])) OS_UBUNTU =
      \<lparr>minutes = class_minutes OS_UBUNTU [?j, one_minute_job],
       cost = class_minutes OS_UBUNTU [?j, one_minute_job] * rate OS_UBUNTU\<rparr>"
    using calculateCostFromJobs_sums [of "[?j, one_minute_job]" OS_UBUNTU 0 None 0] by (rule conjunct1)
  then show ?thesis
    by (simp add: cm PRICING_LINUX_def)
qed

section \<open>Properties of the cost of a usage record\<close>

lemma cost_of_billable_bucket:
  "bucket (breakdown (cost_of_billable b)) c =
     \<lparr>minutes = usage_minutes b c, cost = usage_minutes b c * rate c\<rparr>"
  by (cases c)
    (simp_all add: cost_of_billable_def charge_UBUNTU_def charge_WINDOWS_def charge_MACOS_def
      zero_costs_def set_total_def usage_minutes_def Let_def split: option.splits)

lemma cost_of_billable_class_cost:
  "class_cost (cost_of_billable b) c = usage_minutes b c * rate c"
  by (cases c)
    (simp_all add: cost_of_billable_def charge_UBUNTU_def charge_WINDOWS_def charge_MACOS_def
      zero_costs_def set_total_def usage_minutes_def Let_def split: option.splits)

lemma cost_of_billable_total:
  "total (cost_of_billable b) =
     usage_minutes b OS_UBUNTU * rate OS_UBUNTU
     + usage_minutes b OS_WINDOWS * rate OS_WINDOWS
     + usage_minutes b OS_MACOS * rate OS_MACOS"
  using cost_of_billable_class_cost [of b OS_UBUNTU] cost_of_billable_class_cost [of b OS_WINDOWS]
    cost_of_billable_class_cost [of b OS_MACOS]
  by (simp add: cost_of_billable_def set_total_def)

lemma scan_keys_iff:
  "scan_keys b ks \<longleftrightarrow> (\<exists>k\<in>set ks. \<exists>u. map_of b k = Some u \<and> 0 < total_ms u)"
  by (induction ks) (auto split: option.splits)

lemma hasBillableData_iff:
  "hasBillableData b \<longleftrightarrow> (\<exists>k u. map_of b k = Some u \<and> 0 < total_ms u)"
proof
  assume "hasBillableData b"
  then show "\<exists>k u. map_of b k = Some u \<and> 0 < total_ms u"
    unfolding hasBillableData_def scan_keys_iff by blast
next
  assume "\<exists>k u. map_of b k = Some u \<and> 0 < total_ms u"
  then obtain k u where ku: "map_of b k = Some u" "0 < total_ms u"
    by blast
  from ku(1) have "k \<in> set (map fst b)"
    by (metis map_of_eq_None_iff option.distinct(1) set_map)
  with ku show "hasBillableData b"
    unfolding hasBillableData_def scan_keys_iff by blast
qed

lemma billable_cost_cases:
  "billable_cost t =
     (if hasBillableData (billable_or_empty t) then Inr (cost_of_billable (billable_or_empty t))
      else Inl (Error ''No billable data''))"
  by (simp add: billable_cost_def Let_def)

lemma rate_pos: "0 < rate c"
  by (cases c) (simp_all add: PRICING_LINUX_def PRICING_WINDOWS_def PRICING_MACOS_def)

lemma billable_cost_one_minute:
  "billable_cost \<lparr>billable = Some [(''UBUNTU'', \<lparr>total_ms = 60000\<rparr>)]\<rparr> =
     Inr \<lparr>linux = 1 / 125, windows = 0, macos = 0, total = 1 / 125,
          breakdown = \<lparr>UBUNTU = \<lparr>minutes = 1, cost = 1 / 125\<rparr>,
                       WINDOWS = \<lparr>minutes = 0, cost = 0\<rparr>,
                       MACOS = \<lparr>minutes = 0, cost = 0\<rparr>\<rparr>\<rparr>"
  by (simp add: billable_cost_def billable_or_empty_def hasBillableData_def
      cost_of_billable_def charge_UBUNTU_def charge_WINDOWS_def charge_MACOS_def zero_costs_def
      set_total_def PRICING_LINUX_def Let_def)

lemma billable_cost_zero_ms:
  "billable_cost \<lparr>billable = Some [(''UBUNTU'', \<lparr>total_ms = 0\<rparr>)]\<rparr> = Inl (Error ''No billable data'')"
  by (simp add: billable_cost_def billable_or_empty_def hasBillableData_def)

lemma billable_cost_absent:
  "billable_cost \<lparr>billable = None\<rparr> = Inl (Error ''No billable data'')"
  "billable_cost \<lparr>billable = Some []\<rparr> = Inl (Error ''No billable data'')"
  by (simp_all add: billable_cost_def billable_or_empty_def hasBillableData_def)

lemma run_cost_usage:
  assumes "getWorkflowRunUsage gh i = Inr t"
  shows "run_cost gh i =
           (if hasBillableData (billable_or_empty t) then Inr (cost_of_billable (billable_or_empty t))
            else case listJobsForWorkflowRun gh i of
                   Inl e \<Rightarrow> Inl e
                 | Inr jobs \<Rightarrow> Inr (calculateCostFromJobs jobs))"
  using assms by (simp add: run_cost_def billable_cost_cases)

text \<open>
  Claim C3 says that a class with a negative duration contributes zero. With
  \<open>{UBUNTU: {total_ms: -60000}, WINDOWS: {total_ms: 60000}}\<close> the authoritative step charges
  the Linux class minus one minute and minus 0.008.
\<close>

theorem negative_duration_charged_counterexample:
  "billable_cost
     \<lparr>billable = Some [(''UBUNTU'', \<lparr>total_ms = - 60000\<rparr>), (''WINDOWS'', \<lparr>total_ms = 60000\<rparr>)]\<rparr> =
   Inr \<lparr>linux = - (1 / 125), windows = 2 / 125, macos = 0, total = 1 / 125,
        breakdown = \<lparr>UBUNTU = \<lparr>minutes = - 1, cost = - (1 / 125)\<rparr>,
                     WINDOWS = \<lparr>minutes = 1, cost = 2 / 125\<rparr>,
                     MACOS = \<lparr>minutes = 0, cost = 0\<rparr>\<rparr>\<rparr>"
  by (simp add: billable_cost_def billable_or_empty_def hasBillableData_def
      cost_of_billable_def charge_UBUNTU_def charge_WINDOWS_def charge_MACOS_def zero_costs_def
      set_total_def PRICING_LINUX_def PRICING_WINDOWS_def Let_def)

text \<open>
  Claim C3, amended. For every usage record, each class that is present is converted to minutes
  by dividing its milliseconds by 60000 and multiplied by the class's rate, whatever the sign
  of the duration; a class that is absent contributes zero minutes and zero cost (and so does
  a class whose duration is zero, as zero divided and multiplied stays zero). This holds for
  \<open>calculateCost\<close> and for the authoritative step of \<open>calculateRepoCost\<close>.
\<close>

theorem billable_minutes_any_sign:
  "bucket (breakdown (calculateCost t)) c =
      \<lparr>minutes = usage_minutes (billable_or_empty t) c,
       cost = usage_minutes (billable_or_empty t) c * rate c\<rparr>
   \<and> (billable_cost t = Inr r \<longrightarrow>
        bucket (breakdown r) c =
          \<lparr>minutes = usage_minutes (billable_or_empty t) c,
           cost = usage_minutes (billable_or_empty t) c * rate c\<rparr>)
   \<and> (map_of (billable_or_empty t) (os_key c) = None \<longrightarrow> usage_minutes (billable_or_empty t) c = 0)
   \<and> (map_of (billable_or_empty t) (os_key c) = Some u \<longrightarrow>
        usage_minutes (billable_or_empty t) c = total_ms u / 60000)"
  by (auto simp: calculateCost_def cost_of_billable_bucket billable_cost_cases usage_minutes_def
      split: if_splits)

text \<open>
  With \<open>{WINDOWS: {total_ms: 90000}}\<close>: 1.5 Windows minutes costing 0.024, and nothing for
  the absent macOS class.
\<close>

theorem billable_minutes_any_sign_witness:
  "bucket (breakdown (calculateCost \<lparr>billable = Some [(''WINDOWS'', \<lparr>total_ms = 90000\<rparr>)]\<rparr>)) OS_WINDOWS =
     \<lparr>minutes = 3 / 2, cost = 3 / 125\<rparr>
   \<and> bucket (breakdown (calculateCost \<lparr>billable = Some [(''WINDOWS'', \<lparr>total_ms = 90000\<rparr>)]\<rparr>)) OS_MACOS =
     \<lparr>minutes = 0, cost = 0\<rparr>"
  using billable_minutes_any_sign [of "\<lparr>billable = Some [(''WINDOWS'', \<lparr>total_ms = 90000\<rparr>)]\<rparr>" OS_WINDOWS _ "\<lparr>total_ms = 90000\<rparr>"]
    billable_minutes_any_sign [of "\<lparr>billable = Some [(''WINDOWS'', \<lparr>total_ms = 90000\<rparr>)]\<rparr>" OS_MACOS]
  by (simp add: billable_or_empty_def PRICING_WINDOWS_def)

lemma breakdown_okI:
  assumes "\<And>c. cost (bucket (breakdown r) c) = minutes (bucket (breakdown r) c) * rate c"
    and "\<And>c. class_cost r c = cost (bucket (breakdown r) c)"
    and "total r = linux r + windows r + macos r"
  shows "breakdown_ok r"
  using assms(1) [of OS_UBUNTU] assms(1) [of OS_WINDOWS] assms(1) [of OS_MACOS]
    assms(2) [of OS_UBUNTU] assms(2) [of OS_WINDOWS] assms(2) [of OS_MACOS] assms(3)
  by (simp add: breakdown_ok_def)

lemma calculateCostFromJobs_total_fields:
  "total (calculateCostFromJobs jobs) =
     linux (calculateCostFromJobs jobs) + windows (calculateCostFromJobs jobs)
     + macos (calculateCostFromJobs jobs)"
  by (simp add: calculateCostFromJobs_def set_total_def)

lemma cost_of_billable_total_fields:
  "total (cost_of_billable b) =
     linux (cost_of_billable b) + windows (cost_of_billable b) + macos (cost_of_billable b)"
  by (simp add: cost_of_billable_def set_total_def)

lemma breakdown_ok_jobs: "breakdown_ok (calculateCostFromJobs jobs)"
  by (rule breakdown_okI)
    (simp_all only: calculateCostFromJobs_bucket calculateCostFromJobs_class_cost
      calculateCostFromJobs_total_fields os_cost.simps)

lemma breakdown_ok_billable: "breakdown_ok (cost_of_billable b)"
  by (rule breakdown_okI)
    (simp_all only: cost_of_billable_bucket cost_of_billable_class_cost
      cost_of_billable_total_fields os_cost.simps)

text \<open>
  Claim C2 says that a record is insufficient only if every duration in it is zero. The record
  \<open>{UBUNTU: {total_ms: -60000}}\<close> has a non-zero duration and is insufficient.
\<close>

theorem insufficient_negative_duration_counterexample:
  "billable_cost \<lparr>billable = Some [(''UBUNTU'', \<lparr>total_ms = - 60000\<rparr>)]\<rparr> =
     Inl (Error ''No billable data'')
   \<and> total_ms \<lparr>total_ms = - 60000\<rparr> \<noteq> 0"
  by (simp add: billable_cost_def billable_or_empty_def hasBillableData_def)

text \<open>
  Claim C2, amended. The authoritative step of \<open>calculateRepoCost\<close> signals "No billable data"
  if and only if the usage record is absent or empty or no key in it has a positive duration
  (every duration present is zero or negative); that is its only error, and it sends the run
  to the job-based computation. \<open>{UBUNTU: {total_ms: 0}}\<close> is insufficient;
  \<open>{UBUNTU: {total_ms: 60000}}\<close> is not and gives 1 Linux minute at cost 0.008.
\<close>

theorem insufficient_iff_no_positive_duration:
  "(billable_cost t = Inl (Error ''No billable data'') \<longleftrightarrow>
      (\<forall>k u. map_of (billable_or_empty t) k = Some u \<longrightarrow> total_ms u \<le> 0))
   \<and> (billable_cost t = Inl e \<longrightarrow> e = Error ''No billable data'')
   \<and> (getWorkflowRunUsage gh i = Inr t \<and> billable_cost t = Inl e \<longrightarrow>
        run_cost gh i =
          (case listJobsForWorkflowRun gh i of
             Inl e' \<Rightarrow> Inl e'
           | Inr jobs \<Rightarrow> Inr (calculateCostFromJobs jobs)))
   \<and> billable_cost \<lparr>billable = Some [(''UBUNTU'', \<lparr>total_ms = 0\<rparr>)]\<rparr> =
       Inl (Error ''No billable data'')
   \<and> billable_cost \<lparr>billable = Some [(''UBUNTU'', \<lparr>total_ms = 60000\<rparr>)]\<rparr> =
       Inr \<lparr>linux = 1 / 125, windows = 0, macos = 0, total = 1 / 125,
            breakdown = \<lparr>UBUNTU = \<lparr>minutes = 1, cost = 1 / 125\<rparr>,
                         WINDOWS = \<lparr>minutes = 0, cost = 0\<rparr>,
                         MACOS = \<lparr>minutes = 0, cost = 0\<rparr>\<rparr>\<rparr>"
proof -
  have a: "billable_cost t = Inl (Error ''No billable data'') \<longleftrightarrow>
      (\<forall>k u. map_of (billable_or_empty t) k = Some u \<longrightarrow> total_ms u \<le> 0)"
    unfolding billable_cost_cases hasBillableData_iff
    by (simp add: not_less [symmetric])
  have b: "billable_cost t = Inl e \<longrightarrow> e = Error ''No billable data''"
    by (simp add: billable_cost_cases)
  have c: "getWorkflowRunUsage gh i = Inr t \<and> billable_cost t = Inl e \<longrightarrow>
        run_cost gh i =
          (case listJobsForWorkflowRun gh i of
             Inl e' \<Rightarrow> Inl e'
           | Inr jobs \<Rightarrow> Inr (calculateCostFromJobs jobs))"
    by (auto simp: run_cost_usage billable_cost_cases split: if_splits)
  show ?thesis
    by (intro conjI a b c billable_cost_zero_ms billable_cost_one_minute)
qed

text \<open>
  A record whose durations are zero and negative is insufficient.
\<close>

theorem insufficient_iff_no_positive_duration_witness:
  "billable_cost \<lparr>billable = Some [(''UBUNTU'', \<lparr>total_ms = 0\<rparr>), (''MACOS'', \<lparr>total_ms = - 5\<rparr>)]\<rparr> =
     Inl (Error ''No billable data'')"
proof -
  let ?t = "\<lparr>billable = Some [(''UBUNTU'', \<lparr>total_ms = 0\<rparr>), (''MACOS'', \<lparr>total_ms = - 5\<rparr>)]\<rparr>"
  have h: "\<forall>k u. map_of (billable_or_empty ?t) k = Some u \<longrightarrow> total_ms u \<le> 0"
    by (auto simp: billable_or_empty_def split: if_splits)
  have "billable_cost ?t = Inl (Error ''No billable data'') \<longleftrightarrow>
      (\<forall>k u. map_of (billable_or_empty ?t) k = Some u \<longrightarrow> total_ms u \<le> 0)"
    using insufficient_iff_no_positive_duration [of ?t] by (rule conjunct1)
  then show ?thesis
    using h by (rule iffD2)
qed

text \<open>
  The command-line tool decides the fallback by \<open>cost.total === 0\<close>, which looks at the
  three classes only. When no class has a negative duration it falls back exactly when each
  of the three classes is absent or zero.
\<close>

lemma cli_falls_back_iff:
  assumes "\<And>c. 0 \<le> usage_minutes (billable_or_empty t) c"
  shows "cli_falls_back t \<longleftrightarrow> (\<forall>c. usage_minutes (billable_or_empty t) c = 0)"
proof -
  let ?m = "usage_minutes (billable_or_empty t)"
  have nn: "0 \<le> ?m c * rate c" for c
    using assms [of c] rate_pos [of c] by simp
  have "cli_falls_back t \<longleftrightarrow>
      ?m OS_UBUNTU * rate OS_UBUNTU + ?m OS_WINDOWS * rate OS_WINDOWS + ?m OS_MACOS * rate OS_MACOS = 0"
    by (simp only: cli_falls_back_def calculateCost_def cost_of_billable_total)
  also have "\<dots> \<longleftrightarrow> ?m OS_UBUNTU * rate OS_UBUNTU = 0 \<and> ?m OS_WINDOWS * rate OS_WINDOWS = 0
      \<and> ?m OS_MACOS * rate OS_MACOS = 0"
    using nn [of OS_UBUNTU] nn [of OS_WINDOWS] nn [of OS_MACOS] by linarith
  also have "\<dots> \<longleftrightarrow> ?m OS_UBUNTU = 0 \<and> ?m OS_WINDOWS = 0 \<and> ?m OS_MACOS = 0"
    using rate_pos [of OS_UBUNTU] rate_pos [of OS_WINDOWS] rate_pos [of OS_MACOS] by simp
  also have "\<dots> \<longleftrightarrow> (\<forall>c. ?m c = 0)"
    by (metis runner_os.exhaust)
  finally show ?thesis .
qed

section \<open>Properties in double arithmetic\<close>

lemma round_even_of_int [simp]: "round_even (of_int n) = n"
  by (simp add: round_even_def)

lemma ilog2_of_int: "0 < n \<Longrightarrow> ilog2 (of_int n) = bitlen n - 1"
  by (simp add: ilog2_def)

lemma bitlen_le_53:
  assumes "0 < n" "n < 2 ^ 53"
  shows "1 \<le> bitlen n" "bitlen n \<le> 53"
proof -
  from bitlen_bounds [OF assms(1)] have b: "2 ^ nat (bitlen n - 1) \<le> n" by simp
  show "1 \<le> bitlen n"
    using assms(1) bitlen_eq_zero_iff [of n] bitlen_nonneg [of n] by linarith
  show "bitlen n \<le> 53"
  proof (rule ccontr)
    assume "\<not> bitlen n \<le> 53"
    then have "53 \<le> nat (bitlen n - 1)" by simp
    then have "(2::int) ^ 53 \<le> 2 ^ nat (bitlen n - 1)"
      by (intro power_increasing) simp_all
    with b assms(2) show False by linarith
  qed
qed

lemma round64_of_int_pos:
  assumes "0 < n" "n < 2 ^ 53"
  shows "round64 (of_int n) = of_int n"
proof -
  let ?e = "bitlen n - 1"
  from bitlen_le_53 [OF assms] have e: "0 \<le> ?e" "?e \<le> 52" by simp_all
  have ab: "\<bar>rat_of_int n\<bar> = rat_of_int n"
    using assms(1) by simp
  have ne: "rat_of_int n \<noteq> 0"
    using assms(1) by simp
  have mx: "max (ilog2 \<bar>rat_of_int n\<bar>) (- 1022) = ?e"
    unfolding ab ilog2_of_int [OF assms(1)] using e by (simp add: max_def)
  have q: "(2::rat) powi (?e - 52) = 1 / 2 ^ nat (52 - ?e)"
    using e by (simp add: power_int_def nat_diff_distrib field_simps)
  have d: "rat_of_int n / (2 powi (?e - 52)) = of_int (n * 2 ^ nat (52 - ?e))"
    by (subst q) simp
  have "round64 (of_int n) =
      of_int (round_even (rat_of_int n / (2 powi (?e - 52)))) * (2 powi (?e - 52))"
    by (simp only: round64_def Let_def mx ne if_False)
  also have "\<dots> = of_int (n * 2 ^ nat (52 - ?e)) * (2 powi (?e - 52))"
    by (simp only: d round_even_of_int)
  also have "\<dots> = of_int n"
    by (subst q) simp
  finally show ?thesis .
qed

lemma round_even_minus: "round_even (- x) = - round_even x"
proof (cases "x = of_int \<lfloor>x\<rfloor>")
  case True
  then obtain k where k: "x = of_int k" ..
  show ?thesis
    unfolding k by (simp only: of_int_minus [symmetric] round_even_of_int)
next
  case False
  then have lt: "of_int \<lfloor>x\<rfloor> < x"
    using of_int_floor_le [of x] by (intro order.not_eq_order_implies_strict) auto
  have up: "x < of_int \<lfloor>x\<rfloor> + 1"
    by linarith
  have f: "\<lfloor>- x\<rfloor> = - \<lfloor>x\<rfloor> - 1"
  proof (rule floor_unique)
    show "of_int (- \<lfloor>x\<rfloor> - 1) \<le> - x"
      using up by simp
    show "- x < of_int (- \<lfloor>x\<rfloor> - 1) + 1"
      using lt by simp
  qed
  have e: "even (- \<lfloor>x\<rfloor> - 1) \<longleftrightarrow> odd \<lfloor>x\<rfloor>" by simp
  have r: "- x - of_int (- \<lfloor>x\<rfloor> - 1) = 1 - (x - of_int \<lfloor>x\<rfloor>)" by simp
  show ?thesis
    unfolding round_even_def Let_def f e r
    by (auto simp: not_less)
qed

lemma round64_minus: "round64 (- x) = - round64 x"
  by (simp add: round64_def Let_def round_even_minus)

lemma round64_of_int:
  assumes "\<bar>n\<bar> < 2 ^ 53"
  shows "round64 (of_int n) = of_int n"
proof -
  consider "n = 0" | "0 < n" | "n < 0" by linarith
  then show ?thesis
  proof cases
    case 1
    then show ?thesis by (simp add: round64_def)
  next
    case 2
    with assms show ?thesis by (simp add: round64_of_int_pos)
  next
    case 3
    with assms have "round64 (of_int (- n)) = of_int (- n)"
      by (intro round64_of_int_pos) simp_all
    then show ?thesis
      by (simp add: round64_minus)
  qed
qed

lemma round64_0 [simp]: "round64 0 = 0"
  by (simp add: round64_def)

lemma fl_mul_0 [simp]: "fl_mul 0 x = 0"
  by (simp add: fl_mul_def)

lemma bucket_add_minutes_d:
  "bucket (add_minutes_d os m b) c =
     (if c = os then (bucket b c)\<lparr>minutes := fl_add (minutes (bucket b c)) m\<rparr> else bucket b c)"
  by (cases os; cases c) (simp_all add: add_minutes_d_def)

lemma bucket_add_cost_d:
  "bucket (add_cost_d os x b) c =
     (if c = os then (bucket b c)\<lparr>cost := fl_add (cost (bucket b c)) x\<rparr> else bucket b c)"
  by (cases os; cases c) (simp_all add: add_cost_d_def)

lemma job_step_d_skip:
  "started_at job = None \<or> completed_at job = None \<Longrightarrow> job_step_d costs job = costs"
  by (auto simp: job_step_d_def split: option.splits)

lemma job_step_d_timed:
  assumes "started_at job = Some s" "completed_at job = Some e"
  shows "breakdown (job_step_d costs job) =
           add_cost_d (job_os job) (fl_mul (job_minutes_d job) (rate_d (job_os job)))
             (add_minutes_d (job_os job) (job_minutes_d job) (breakdown costs))"
    and "class_cost (job_step_d costs job) c =
           (if c = job_os job
            then fl_add (class_cost costs c) (fl_mul (job_minutes_d job) (rate_d c))
            else class_cost costs c)"
  using assms
  by (cases "detectRunnerOS (case labels job of Some ls \<Rightarrow> ls | None \<Rightarrow> [])"; cases c;
      simp add: job_step_d_def job_os_def job_minutes_d_def Let_def)+

lemma job_step_d_bucket:
  "bucket (breakdown (job_step_d costs job)) c =
     (if started_at job \<noteq> None \<and> completed_at job \<noteq> None \<and> job_os job = c
      then \<lparr>minutes = fl_add (minutes (bucket (breakdown costs) c)) (job_minutes_d job),
            cost = fl_add (cost (bucket (breakdown costs) c)) (fl_mul (job_minutes_d job) (rate_d c))\<rparr>
      else bucket (breakdown costs) c)"
proof (cases "started_at job")
  case None
  then show ?thesis by (simp add: job_step_d_skip)
next
  case (Some s)
  note s = this
  show ?thesis
  proof (cases "completed_at job")
    case None
    then show ?thesis by (simp add: job_step_d_skip)
  next
    case (Some e)
    then show ?thesis
      by (auto simp: job_step_d_timed(1) [OF s Some] bucket_add_cost_d bucket_add_minutes_d s)
  qed
qed

lemma job_step_d_class_cost:
  "class_cost (job_step_d costs job) c =
     (if started_at job \<noteq> None \<and> completed_at job \<noteq> None \<and> job_os job = c
      then fl_add (class_cost costs c) (fl_mul (job_minutes_d job) (rate_d c))
      else class_cost costs c)"
proof (cases "started_at job")
  case None
  then show ?thesis by (simp add: job_step_d_skip)
next
  case (Some s)
  note s = this
  show ?thesis
  proof (cases "completed_at job")
    case None
    then show ?thesis by (simp add: job_step_d_skip)
  next
    case (Some e)
    then show ?thesis
      by (auto simp: job_step_d_timed(2) [OF s Some] s)
  qed
qed

lemma foldl_job_step_d_bucket:
  "bucket (breakdown (foldl job_step_d costs jobs)) c =
     \<lparr>minutes = foldl fl_add (minutes (bucket (breakdown costs) c))
                 (map job_minutes_d (class_jobs c jobs)),
      cost = foldl fl_add (cost (bucket (breakdown costs) c))
               (map (\<lambda>j. fl_mul (job_minutes_d j) (rate_d c)) (class_jobs c jobs))\<rparr>"
proof (induction jobs arbitrary: costs)
  case Nil
  show ?case by (simp add: class_jobs_def)
next
  case (Cons j js)
  show ?case
    by (simp add: Cons.IH job_step_d_bucket class_jobs_def)
qed

lemma foldl_job_step_d_class_cost:
  "class_cost (foldl job_step_d costs jobs) c =
     foldl fl_add (class_cost costs c)
       (map (\<lambda>j. fl_mul (job_minutes_d j) (rate_d c)) (class_jobs c jobs))"
proof (induction jobs arbitrary: costs)
  case Nil
  show ?case by (simp add: class_jobs_def)
next
  case (Cons j js)
  show ?case
    by (simp add: Cons.IH job_step_d_class_cost class_jobs_def)
qed

lemma breakdown_set_total_d [simp]: "breakdown (set_total_d c) = breakdown c"
  and class_cost_set_total_d [simp]: "class_cost (set_total_d c) k = class_cost c k"
  by (cases k; simp add: set_total_d_def)+

lemma calculateCostFromJobs_d_bucket:
  "bucket (breakdown (calculateCostFromJobs_d jobs)) c =
     \<lparr>minutes = foldl fl_add 0 (map job_minutes_d (class_jobs c jobs)),
      cost = foldl fl_add 0 (map (\<lambda>j. fl_mul (job_minutes_d j) (rate_d c)) (class_jobs c jobs))\<rparr>"
  by (simp add: calculateCostFromJobs_d_def foldl_job_step_d_bucket)

lemma calculateCostFromJobs_d_class_cost:
  "class_cost (calculateCostFromJobs_d jobs) c =
     cost (bucket (breakdown (calculateCostFromJobs_d jobs)) c)"
  by (simp add: calculateCostFromJobs_d_def foldl_job_step_d_bucket foldl_job_step_d_class_cost)

lemma total_ok_dI:
  assumes "\<And>c. class_cost r c = cost (bucket (breakdown r) c)"
    and "total r = fl_add (fl_add (linux r) (windows r)) (macos r)"
  shows "total_ok_d r"
  using assms(1) [of OS_UBUNTU] assms(1) [of OS_WINDOWS] assms(1) [of OS_MACOS] assms(2)
  by (simp add: total_ok_d_def)

lemma total_ok_d_jobs: "total_ok_d (calculateCostFromJobs_d jobs)"
  by (rule total_ok_dI)
    (simp_all add: calculateCostFromJobs_d_class_cost, simp add: calculateCostFromJobs_d_def set_total_d_def)

lemma cost_of_billable_d_bucket:
  "bucket (breakdown (cost_of_billable_d b)) c =
     (case map_of b (os_key c) of
        Some u \<Rightarrow> \<lparr>minutes = fl_div (fl_div (total_ms u) 1000) 60,
                   cost = fl_mul (fl_div (fl_div (total_ms u) 1000) 60) (rate_d c)\<rparr>
      | None \<Rightarrow> \<lparr>minutes = 0, cost = 0\<rparr>)"
  by (cases c)
    (simp_all add: cost_of_billable_d_def charge_UBUNTU_d_def charge_WINDOWS_d_def
      charge_MACOS_d_def zero_costs_def set_total_d_def Let_def split: option.splits)

lemma cost_of_billable_d_class_cost:
  "class_cost (cost_of_billable_d b) c = cost (bucket (breakdown (cost_of_billable_d b)) c)"
  by (cases c)
    (simp_all add: cost_of_billable_d_def charge_UBUNTU_d_def charge_WINDOWS_d_def
      charge_MACOS_d_def zero_costs_def set_total_d_def Let_def split: option.splits)

lemma total_ok_d_billable: "total_ok_d (cost_of_billable_d b)"
  by (rule total_ok_dI)
    (simp_all add: cost_of_billable_d_class_cost, simp add: cost_of_billable_d_def set_total_d_def)

lemma class_cost_ok_d_billable: "class_cost_ok_d (cost_of_billable_d b)"
  using cost_of_billable_d_bucket [of b OS_UBUNTU] cost_of_billable_d_bucket [of b OS_WINDOWS]
    cost_of_billable_d_bucket [of b OS_MACOS]
  by (auto simp: class_cost_ok_d_def split: option.splits)

lemma billable_cost_d_cases:
  "billable_cost_d t =
     (if hasBillableData (billable_or_empty t) then Inr (cost_of_billable_d (billable_or_empty t))
      else Inl (Error ''No billable data''))"
  by (simp add: billable_cost_d_def Let_def)

lemma jobs_7s_11s_arith:
  "fl_add (fl_add 0 (fl_div (fl_div (fl_sub 7000 0) 1000) 60))
       (fl_div (fl_div (fl_sub 11000 0) 1000) 60) = 5404319552844595 / 2 ^ 54"
  "fl_add (fl_add 0 (fl_mul (fl_div (fl_div (fl_sub 7000 0) 1000) 60) PRICING_LINUX_d))
       (fl_mul (fl_div (fl_div (fl_sub 11000 0) 1000) 60) PRICING_LINUX_d) =
     2767011611056433 / 2 ^ 60"
  "fl_mul (5404319552844595 / 2 ^ 54) PRICING_LINUX_d = 5534023222112865 / 2 ^ 61"
  by code_simp+

lemma jobs_7s_11s_cost:
  "minutes (UBUNTU (breakdown (calculateCostFromJobs_d jobs_7s_11s))) = 5404319552844595 / 2 ^ 54"
  "cost (UBUNTU (breakdown (calculateCostFromJobs_d jobs_7s_11s))) = 2767011611056433 / 2 ^ 60"
proof -
  have os: "job_os \<lparr>started_at = Some 0, completed_at = Some t, labels = Some [''ubuntu-latest'']\<rparr>
      = OS_UBUNTU" for t
    by (simp add: job_os_def detect_ubuntu_latest)
  have b: "bucket (breakdown (calculateCostFromJobs_d jobs_7s_11s)) OS_UBUNTU =
      \<lparr>minutes = fl_add (fl_add 0 (fl_div (fl_div (fl_sub 7000 0) 1000) 60))
                   (fl_div (fl_div (fl_sub 11000 0) 1000) 60),
       cost = fl_add (fl_add 0 (fl_mul (fl_div (fl_div (fl_sub 7000 0) 1000) 60) PRICING_LINUX_d))
                (fl_mul (fl_div (fl_div (fl_sub 11000 0) 1000) 60) PRICING_LINUX_d)\<rparr>"
    unfolding calculateCostFromJobs_d_bucket
    by (simp add: class_jobs_def jobs_7s_11s_def os job_minutes_d_def)
  show "minutes (UBUNTU (breakdown (calculateCostFromJobs_d jobs_7s_11s))) =
      5404319552844595 / 2 ^ 54"
    using b by (simp only: bucket.simps os_cost.simps jobs_7s_11s_arith)
  show "cost (UBUNTU (breakdown (calculateCostFromJobs_d jobs_7s_11s))) =
      2767011611056433 / 2 ^ 60"
    using b by (simp only: bucket.simps os_cost.simps jobs_7s_11s_arith)
qed

lemma fl_div_whole_seconds:
  assumes "\<bar>s\<bar> < 2 ^ 53"
  shows "fl_div (fl_div (1000 * rat_of_int s) 1000) 60 = fl_div (1000 * rat_of_int s) 60000"
proof -
  have "fl_div (1000 * rat_of_int s) 1000 = rat_of_int s"
    using round64_of_int [OF assms] by (simp add: fl_div_def)
  then show ?thesis
    by (simp add: fl_div_def)
qed

lemma rates_d:
  "PRICING_LINUX_d = 1152921504606847 / 2 ^ 57"
  "PRICING_WINDOWS_d = 2 * PRICING_LINUX_d"
  "PRICING_MACOS_d = fl_mul 10 PRICING_LINUX_d"
  "PRICING_MACOS_d = 5764607523034235 / 2 ^ 56"
  by code_simp+

lemma cost_43_ms_arith:
  "fl_mul (fl_div (fl_div 43 1000) 60) PRICING_LINUX_d = 6768725292113157 / 2 ^ 70"
  "fl_mul (fl_div 43 60000) PRICING_LINUX_d = 3384362646056579 / 2 ^ 69"
  by code_simp+

lemma cost_43_ms:
  "cost (UBUNTU (breakdown (calculateCost_d \<lparr>billable = Some [(''UBUNTU'', \<lparr>total_ms = 43\<rparr>)]\<rparr>))) =
     6768725292113157 / 2 ^ 70"
proof -
  have "bucket (breakdown (calculateCost_d \<lparr>billable = Some [(''UBUNTU'', \<lparr>total_ms = 43\<rparr>)]\<rparr>))
      OS_UBUNTU =
      \<lparr>minutes = fl_div (fl_div 43 1000) 60,
       cost = fl_mul (fl_div (fl_div 43 1000) 60) PRICING_LINUX_d\<rparr>"
    unfolding calculateCost_d_def cost_of_billable_d_bucket
    by (simp add: billable_or_empty_def)
  then show ?thesis
    by (simp only: bucket.simps os_cost.simps cost_43_ms_arith)
qed

text \<open>
  Claim C8 says that each per-class cost equals the class's minutes times its rate. For two
  Ubuntu jobs of 7 s and 11 s the program returns 0.3 minutes and the cost
  0.0024000000000000002, the sum of the two rounded products, while 0.3 * 0.008 is 0.0024 in
  doubles.
\<close>

theorem breakdown_invariant_counterexample:
  "minutes (UBUNTU (breakdown (calculateCostFromJobs_d jobs_7s_11s))) = 5404319552844595 / 2 ^ 54
   \<and> cost (UBUNTU (breakdown (calculateCostFromJobs_d jobs_7s_11s))) = 2767011611056433 / 2 ^ 60
   \<and> fl_mul (minutes (UBUNTU (breakdown (calculateCostFromJobs_d jobs_7s_11s)))) PRICING_LINUX_d =
       5534023222112865 / 2 ^ 61
   \<and> \<not> class_cost_ok_d (calculateCostFromJobs_d jobs_7s_11s)"
proof -
  let ?r = "calculateCostFromJobs_d jobs_7s_11s"
  have p: "fl_mul (minutes (UBUNTU (breakdown ?r))) PRICING_LINUX_d = 5534023222112865 / 2 ^ 61"
    by (simp only: jobs_7s_11s_cost jobs_7s_11s_arith)
  have "(2767011611056433 / 2 ^ 60 :: rat) \<noteq> 5534023222112865 / 2 ^ 61"
    by simp
  then have ne: "cost (UBUNTU (breakdown ?r)) \<noteq> fl_mul (minutes (UBUNTU (breakdown ?r))) PRICING_LINUX_d"
    by (simp only: p jobs_7s_11s_cost(2) simp_thms)
  then have "\<not> class_cost_ok_d ?r"
    by (simp add: class_cost_ok_d_def)
  with p jobs_7s_11s_cost(1,2) show ?thesis
    by (intro conjI)
qed

text \<open>
  Claim C8, amended. Every breakdown produced by \<open>calculateCostFromJobs\<close>, by \<open>calculateCost\<close>
  or by the authoritative step of \<open>calculateRepoCost\<close> has a total equal to the sum of the
  three per-class costs, added as doubles from the left; these are also its fields \<open>linux\<close>,
  \<open>windows\<close> and \<open>macos\<close>. In a breakdown made from a usage record each per-class cost is the
  class's minutes times its rate, one double multiplication. In a breakdown made from jobs
  the minutes of a class are the sum of its jobs' minutes and its cost is the sum of its jobs'
  minutes times rate, each product and each sum rounded: this cost equals minutes times rate
  in exact arithmetic, and not always in doubles.
\<close>

theorem breakdown_invariant_doubles:
  "total_ok_d (calculateCostFromJobs_d jobs)
   \<and> total_ok_d (calculateCost_d t)
   \<and> (billable_cost_d t = Inr r \<longrightarrow> total_ok_d r)
   \<and> class_cost_ok_d (calculateCost_d t)
   \<and> (billable_cost_d t = Inr r \<longrightarrow> class_cost_ok_d r)
   \<and> bucket (breakdown (calculateCostFromJobs_d jobs)) c =
       \<lparr>minutes = foldl fl_add 0 (map job_minutes_d (class_jobs c jobs)),
        cost = foldl fl_add 0
                 (map (\<lambda>j. fl_mul (job_minutes_d j) (rate_d c)) (class_jobs c jobs))\<rparr>
   \<and> breakdown_ok (calculateCostFromJobs jobs)
   \<and> breakdown_ok (calculateCost t)
   \<and> (billable_cost t = Inr r' \<longrightarrow> breakdown_ok r')"
proof -
  have 1: "billable_cost_d t = Inr r \<longrightarrow> total_ok_d r"
    by (auto simp: billable_cost_d_cases total_ok_d_billable split: if_splits)
  have 2: "billable_cost_d t = Inr r \<longrightarrow> class_cost_ok_d r"
    by (auto simp: billable_cost_d_cases class_cost_ok_d_billable split: if_splits)
  have 3: "billable_cost t = Inr r' \<longrightarrow> breakdown_ok r'"
    by (auto simp: billable_cost_cases breakdown_ok_billable split: if_splits)
  show ?thesis
    by (intro conjI total_ok_d_jobs 1 2 3 calculateCostFromJobs_d_bucket breakdown_ok_jobs)
      (simp_all only: calculateCost_d_def calculateCost_def total_ok_d_billable
        class_cost_ok_d_billable breakdown_ok_billable)
qed

text \<open>
  The breakdown of \<open>{MACOS: {total_ms: 90000}}\<close>: 1.5 minutes, the cost their product with
  the macOS rate.
\<close>

theorem breakdown_invariant_doubles_witness:
  "billable_cost_d \<lparr>billable = Some [(''MACOS'', \<lparr>total_ms = 90000\<rparr>)]\<rparr> =
     Inr (cost_of_billable_d [(''MACOS'', \<lparr>total_ms = 90000\<rparr>)])
   \<and> total_ok_d (cost_of_billable_d [(''MACOS'', \<lparr>total_ms = 90000\<rparr>)])
   \<and> class_cost_ok_d (cost_of_billable_d [(''MACOS'', \<lparr>total_ms = 90000\<rparr>)])
   \<and> cost (MACOS (breakdown (cost_of_billable_d [(''MACOS'', \<lparr>total_ms = 90000\<rparr>)]))) =
       fl_mul (3 / 2) PRICING_MACOS_d"
proof -
  let ?b = "[(''MACOS'', \<lparr>total_ms = 90000\<rparr>)]"
  have v: "billable_cost_d \<lparr>billable = Some ?b\<rparr> = Inr (cost_of_billable_d ?b)"
    by (simp add: billable_cost_d_def billable_or_empty_def hasBillableData_def)
  have m: "fl_div (fl_div 90000 1000) 60 = 3 / 2"
    by code_simp
  have c: "cost (MACOS (breakdown (cost_of_billable_d ?b))) = fl_mul (3 / 2) PRICING_MACOS_d"
    using cost_of_billable_d_bucket [of ?b OS_MACOS] by (simp add: m)
  from breakdown_invariant_doubles [of "[]" "\<lparr>billable = Some ?b\<rparr>" "cost_of_billable_d ?b"] v c
  show ?thesis by blast
qed

subsection \<open>The rounding error of a cost\<close>

text \<open>
  A rounding to a double in the normal range changes a number by at most the fraction 2^-53
  of itself. The cost of a usage is made with three roundings from a rate that is itself a
  rounded literal, so that it is within the fraction 2^-50 of the exact product.
\<close>

lemma ilog2_bounds:
  assumes "0 < x"
  shows "2 powi (ilog2 x) \<le> x" and "x < 2 powi (ilog2 x + 1)"
proof -
  have "2 powi (ilog2 x) \<le> x \<and> x < 2 powi (ilog2 x + 1)"
  proof (cases "1 \<le> x")
    case True
    let ?n = "\<lfloor>x\<rfloor>"
    from True have n: "0 < ?n" by simp
    from bitlen_bounds [OF n]
    have lo: "2 ^ nat (bitlen ?n - 1) \<le> ?n" and hi: "?n < 2 ^ nat (bitlen ?n)" by simp_all
    have b1: "1 \<le> bitlen ?n"
      using n bitlen_eq_zero_iff [of ?n] bitlen_nonneg [of ?n] by linarith
    have e: "ilog2 x = bitlen ?n - 1"
      using True by (simp add: ilog2_def)
    have p1: "(2::rat) powi (bitlen ?n - 1) = of_int (2 ^ nat (bitlen ?n - 1))"
      using b1 by (simp add: power_int_def)
    have p2: "(2::rat) powi (bitlen ?n - 1 + 1) = of_int (2 ^ nat (bitlen ?n))"
      using b1 by (simp add: power_int_def)
    have "rat_of_int (2 ^ nat (bitlen ?n - 1)) \<le> of_int ?n"
      using lo by (simp only: of_int_le_iff)
    also have "\<dots> \<le> x" by simp
    finally have A: "2 powi (ilog2 x) \<le> x"
      by (simp only: e p1)
    have "?n + 1 \<le> 2 ^ nat (bitlen ?n)"
      using hi by simp
    then have "rat_of_int (?n + 1) \<le> of_int (2 ^ nat (bitlen ?n))"
      by (simp only: of_int_le_iff)
    moreover have "x < rat_of_int (?n + 1)"
      by linarith
    ultimately have B: "x < 2 powi (ilog2 x + 1)"
      by (simp only: e p2)
    from A B show ?thesis ..
  next
    case False
    let ?y = "1 / x"
    let ?m = "\<lceil>?y\<rceil>"
    let ?k = "bitlen (?m - 1)"
    from False assms have y1: "1 < ?y" by simp
    then have m2: "2 \<le> ?m" by linarith
    then have m1: "0 < ?m - 1" by simp
    from bitlen_bounds [OF m1]
    have lo: "2 ^ nat (?k - 1) \<le> ?m - 1" and hi: "?m - 1 < 2 ^ nat ?k" by simp_all
    have k1: "1 \<le> ?k"
      using m1 bitlen_eq_zero_iff [of "?m - 1"] bitlen_nonneg [of "?m - 1"] by linarith
    have e: "ilog2 x = - ?k"
      using False by (simp add: ilog2_def)
    have "?m \<le> 2 ^ nat ?k" using hi by simp
    then have a2: "rat_of_int ?m \<le> of_int (2 ^ nat ?k)"
      by (simp only: of_int_le_iff)
    have a1: "?y \<le> of_int ?m" by (rule le_of_int_ceiling)
    have yk: "?y \<le> 2 ^ nat ?k"
      using order_trans [OF a1 a2] by simp
    have b1: "rat_of_int (2 ^ nat (?k - 1)) \<le> of_int (?m - 1)"
      using lo by (simp only: of_int_le_iff)
    have b2: "rat_of_int (?m - 1) < ?y"
      by linarith
    have yk1: "2 ^ nat (?k - 1) < ?y"
      using le_less_trans [OF b1 b2] by simp
    have p1: "(2::rat) powi (- ?k) = 1 / 2 ^ nat ?k"
      using k1 by (simp add: power_int_def field_simps)
    have p2: "(2::rat) powi (- ?k + 1) = 1 / 2 ^ nat (?k - 1)"
      using k1 by (simp add: power_int_def nat_diff_distrib field_simps)
    have A: "2 powi (ilog2 x) \<le> x"
      unfolding e p1 using yk assms by (simp add: field_simps)
    have B: "x < 2 powi (ilog2 x + 1)"
      unfolding e p2 using yk1 assms by (simp add: field_simps)
    from A B show ?thesis ..
  qed
  then show "2 powi (ilog2 x) \<le> x" and "x < 2 powi (ilog2 x + 1)" by simp_all
qed

lemma round_even_error: "\<bar>rat_of_int (round_even x) - x\<bar> \<le> 1 / 2"
proof -
  have "of_int \<lfloor>x\<rfloor> \<le> x" "x < of_int \<lfloor>x\<rfloor> + 1" by linarith+
  then show ?thesis
    unfolding round_even_def Let_def by (auto simp: abs_le_iff)
qed

lemma round64_error:
  assumes "2 powi (- 1022) \<le> \<bar>x\<bar>"
  shows "\<bar>round64 x - x\<bar> \<le> \<bar>x\<bar> / 2 ^ 53"
proof -
  have pos: "(0::rat) < 2 powi (- 1022)" by (simp add: power_int_def)
  with assms have x0: "0 < \<bar>x\<bar>" by linarith
  then have ne: "x \<noteq> 0" by simp
  let ?e = "ilog2 \<bar>x\<bar>"
  let ?q = "(2::rat) powi (?e - 52)"
  have qpos: "0 < ?q" by (simp add: power_int_def)
  have ge: "- 1022 \<le> ?e"
  proof (rule ccontr)
    assume "\<not> - 1022 \<le> ?e"
    then have "?e + 1 \<le> - 1022" by simp
    then have "(2::rat) powi (?e + 1) \<le> 2 powi (- 1022)"
      by (intro power_int_increasing) simp_all
    with ilog2_bounds(2) [OF x0] assms show False by linarith
  qed
  then have mx: "max ?e (- 1022) = ?e" by simp
  have r: "round64 x = of_int (round_even (x / ?q)) * ?q"
    by (simp only: round64_def Let_def mx ne if_False)
  have "of_int (round_even (x / ?q)) * ?q - x = (of_int (round_even (x / ?q)) - x / ?q) * ?q"
    using qpos by (simp add: left_diff_distrib)
  then have "\<bar>round64 x - x\<bar> = \<bar>of_int (round_even (x / ?q)) - x / ?q\<bar> * \<bar>?q\<bar>"
    by (simp only: r abs_mult)
  also have "\<dots> = \<bar>of_int (round_even (x / ?q)) - x / ?q\<bar> * ?q"
    using qpos by (simp only: abs_of_pos)
  also have "\<dots> \<le> 1 / 2 * ?q"
    using round_even_error [of "x / ?q"] qpos by (intro mult_right_mono) simp_all
  also have "\<dots> = 2 powi ?e / 2 ^ 53"
    by (simp add: power_int_diff)
  also have "\<dots> \<le> \<bar>x\<bar> / 2 ^ 53"
    using ilog2_bounds(1) [OF x0] by (intro divide_right_mono) simp_all
  finally show ?thesis .
qed

lemma normal_lower_bound: "1 / 2 ^ 40 \<le> t \<Longrightarrow> 2 powi (- 1022) \<le> (t::rat)"
proof -
  assume t: "1 / 2 ^ 40 \<le> t"
  have "(2::rat) powi (- 1022) \<le> 2 powi (- 40)"
    by (intro power_int_increasing) simp_all
  also have "\<dots> = 1 / 2 ^ 40"
    by (simp add: power_int_def field_simps)
  finally show ?thesis using t by linarith
qed

lemma round64_scale:
  assumes "2 powi (- 1022) \<le> lo" "lo \<le> y" "y \<le> up"
  shows "lo * (1 - 1 / 2 ^ 53) \<le> round64 y" and "round64 y \<le> up * (1 + 1 / 2 ^ 53)"
proof -
  have pos: "(0::rat) < 2 powi (- 1022)" by (simp add: power_int_def)
  with assms have y: "0 < y" "2 powi (- 1022) \<le> \<bar>y\<bar>" by linarith+
  from round64_error [OF y(2)] y(1)
  have e: "\<bar>round64 y - y\<bar> \<le> y / 2 ^ 53" by simp
  have e1: "y - y / 2 ^ 53 \<le> round64 y" and e2: "round64 y \<le> y + y / 2 ^ 53"
    using e unfolding abs_le_iff by linarith+
  have s1: "y * (1 - 1 / 2 ^ 53) = y - y / 2 ^ 53" and s2: "y * (1 + 1 / 2 ^ 53) = y + y / 2 ^ 53"
    by (simp_all only: right_diff_distrib distrib_left mult_1_right times_divide_eq_right)
  have "lo * (1 - 1 / 2 ^ 53) \<le> y * (1 - 1 / 2 ^ 53)"
    using assms(2) by (intro mult_right_mono) simp_all
  also have "\<dots> \<le> round64 y"
    using e1 by (simp only: s1)
  finally show "lo * (1 - 1 / 2 ^ 53) \<le> round64 y" .
  have "round64 y \<le> y * (1 + 1 / 2 ^ 53)"
    using e2 by (simp only: s2)
  also have "\<dots> \<le> up * (1 + 1 / 2 ^ 53)"
    using assms(3) by (intro mult_right_mono) simp_all
  finally show "round64 y \<le> up * (1 + 1 / 2 ^ 53)" .
qed

lemma rate_d_round64: "rate_d c = round64 (rate c)"
  by (cases c)
    (simp_all add: PRICING_LINUX_d_def PRICING_WINDOWS_d_def PRICING_MACOS_d_def
      PRICING_LINUX_def PRICING_WINDOWS_def PRICING_MACOS_def)

lemma rate_lower: "8 / 1000 \<le> rate c"
  by (cases c) (simp_all add: PRICING_LINUX_def PRICING_WINDOWS_def PRICING_MACOS_def)

lemma cost_d_error:
  assumes "1 \<le> d"
  shows "\<bar>fl_mul (fl_div (fl_div d 1000) 60) (rate_d c) - d / 60000 * rate c\<bar>
           \<le> (d / 60000 * rate c) / 2 ^ 50"
proof -
  define L :: rat where "L = 1 - 1 / 2 ^ 53"
  define H :: rat where "H = 1 + 1 / 2 ^ 53"
  define R where "R = rate c"
  define m1 where "m1 = fl_div d 1000"
  define m2 where "m2 = fl_div m1 60"
  define r where "r = rate_d c"
  define k where "k = fl_mul m2 r"
  have L: "1 / 2 \<le> L" "0 \<le> L" and H: "0 \<le> H"
    by (simp_all add: L_def H_def)
  have R: "8 / 1000 \<le> R" "0 \<le> R"
    using rate_lower [of c] by (simp_all add: R_def)
  have d0: "0 \<le> d" using assms by simp
  have "2 powi (- 1022) \<le> R"
    using R(1) by (intro normal_lower_bound) simp
  from round64_scale [OF this order_refl order_refl]
  have r: "R * L \<le> r" "r \<le> R * H"
    by (simp_all add: r_def rate_d_round64 R_def L_def H_def)
  have RL: "1 / 250 \<le> R * L"
    using mult_mono [of "8 / 1000" R "1 / 2" L] R L by simp
  have l1: "1 / 1000 \<le> d / 1000" using assms by simp
  then have "2 powi (- 1022) \<le> d / 1000"
    by (intro normal_lower_bound) simp
  from round64_scale [OF this order_refl order_refl]
  have m1: "d / 1000 * L \<le> m1" "m1 \<le> d / 1000 * H"
    by (simp_all add: m1_def fl_div_def L_def H_def)
  have l1L: "1 / 2000 \<le> d / 1000 * L"
    using mult_mono [of "1 / 1000" "d / 1000" "1 / 2" L] l1 L by simp
  have b2: "d / 1000 * L / 60 \<le> m1 / 60" "m1 / 60 \<le> d / 1000 * H / 60"
    by (rule divide_right_mono [OF m1(1)], simp) (rule divide_right_mono [OF m1(2)], simp)
  have l2: "1 / 120000 \<le> d / 1000 * L / 60"
    using l1L by simp
  then have "2 powi (- 1022) \<le> d / 1000 * L / 60"
    by (intro normal_lower_bound) simp
  from round64_scale [OF this b2]
  have m2: "d / 1000 * L / 60 * L \<le> m2" "m2 \<le> d / 1000 * H / 60 * H"
    by (simp_all add: m2_def fl_div_def L_def H_def)
  have l2L: "1 / 240000 \<le> d / 1000 * L / 60 * L"
    using mult_mono [of "1 / 120000" "d / 1000 * L / 60" "1 / 2" L] l2 L by simp
  then have m2pos: "0 \<le> m2" using m2(1) by linarith
  have b3: "d / 1000 * L / 60 * L * (R * L) \<le> m2 * r"
    using m2(1) r(1) l2L RL by (intro mult_mono) simp_all
  have rpos: "0 \<le> r" using r(1) RL by linarith
  have b3': "m2 * r \<le> d / 1000 * H / 60 * H * (R * H)"
    using m2(2) r(2) m2pos rpos d0 H R by (intro mult_mono) simp_all
  have l3: "1 / 60000000 \<le> d / 1000 * L / 60 * L * (R * L)"
    using mult_mono [of "1 / 240000" "d / 1000 * L / 60 * L" "1 / 250" "R * L"] l2L RL by simp
  then have "2 powi (- 1022) \<le> d / 1000 * L / 60 * L * (R * L)"
    by (intro normal_lower_bound) simp
  from round64_scale [OF this b3 b3']
  have k: "d / 1000 * L / 60 * L * (R * L) * L \<le> k" "k \<le> d / 1000 * H / 60 * H * (R * H) * H"
    by (simp_all add: k_def fl_mul_def L_def H_def)
  define E where "E = d / 60000 * R"
  have E0: "0 \<le> E" using d0 R by (simp add: E_def)
  have lo: "d / 1000 * L / 60 * L * (R * L) * L = E * L ^ 4"
    by (simp add: E_def power4_eq_xxxx)
  have hi: "d / 1000 * H / 60 * H * (R * H) * H = E * H ^ 4"
    by (simp add: E_def power4_eq_xxxx)
  have L4: "1 - 1 / 2 ^ 50 \<le> L ^ 4" and H4: "H ^ 4 \<le> 1 + 1 / 2 ^ 50"
    by (simp_all add: L_def H_def power_divide)
  have k1: "E * L ^ 4 \<le> k" and k2: "k \<le> E * H ^ 4"
    using k by (simp_all only: lo hi)
  have s1: "E * (1 - 1 / 2 ^ 50) = E - E / 2 ^ 50" and s2: "E * (1 + 1 / 2 ^ 50) = E + E / 2 ^ 50"
    by (simp_all only: right_diff_distrib distrib_left mult_1_right times_divide_eq_right)
  have "E * (1 - 1 / 2 ^ 50) \<le> E * L ^ 4"
    using L4 E0 by (intro mult_left_mono)
  with k1 have A: "E - E / 2 ^ 50 \<le> k"
    unfolding s1 by (rule order_trans [rotated])
  have "E * H ^ 4 \<le> E * (1 + 1 / 2 ^ 50)"
    using H4 E0 by (intro mult_left_mono)
  with k2 have B: "k \<le> E + E / 2 ^ 50"
    unfolding s2 by (rule order_trans)
  from A B have "\<bar>k - E\<bar> \<le> E / 2 ^ 50"
    unfolding abs_le_iff by linarith
  then show ?thesis
    by (simp only: k_def m2_def m1_def r_def E_def R_def)
qed

text \<open>
  Claim C9 says that the cost is (d / 60000) * rate exactly. For 43 ms of Linux the program
  computes 43 / 1000 / 60 * 0.008 = 5.733333333333332e-06; the expression (43 / 60000) * 0.008
  is 5.733333333333333e-06 in doubles, and neither is the rational 43/60000 * 8/1000.
\<close>

theorem cost_rounding_counterexample:
  "cost (UBUNTU (breakdown (calculateCost_d \<lparr>billable = Some [(''UBUNTU'', \<lparr>total_ms = 43\<rparr>)]\<rparr>))) =
     6768725292113157 / 2 ^ 70
   \<and> fl_mul (fl_div 43 60000) PRICING_LINUX_d = 3384362646056579 / 2 ^ 69
   \<and> (6768725292113157 / 2 ^ 70 :: rat) \<noteq> 3384362646056579 / 2 ^ 69
   \<and> (6768725292113157 / 2 ^ 70 :: rat) \<noteq> 43 / 60000 * (8 / 1000)"
proof -
  have "(6768725292113157 / 2 ^ 70 :: rat) \<noteq> 3384362646056579 / 2 ^ 69"
    and "(6768725292113157 / 2 ^ 70 :: rat) \<noteq> 43 / 60000 * (8 / 1000)"
    by simp_all
  with cost_43_ms cost_43_ms_arith(2) show ?thesis
    by (intro conjI)
qed

text \<open>
  Claim C9, amended. For every non-negative duration \<open>d\<close> in milliseconds and every OS class
  \<open>c\<close>, the cost computed from a usage record is ((d / 1000) / 60) * rate c, each of the three
  operations rounded to the nearest double and nothing else rounded. It is the value of
  (d / 60000) * rate c in doubles whenever \<open>d\<close> is a whole number of seconds (below 2^53). It
  is 0 for \<open>d\<close> = 0, and for \<open>d\<close> of at least 1 ms it differs from the exact product
  (d / 60000) * rate c, with the rates 0.008, 0.016 and 0.08 of the pricing table, by at most
  the fraction 2^-50 of that product. In exact arithmetic the same code gives
  (d / 60000) * rate c. The rates of the program are the doubles nearest 0.008, 0.016
  (exactly twice the Linux rate) and 0.08 (ten times the Linux rate, rounded).
\<close>

theorem cost_is_minutes_times_rate_doubles:
  assumes "0 \<le> total_ms u" and "map_of (billable_or_empty t) (os_key c) = Some u"
  shows "cost (bucket (breakdown (calculateCost_d t)) c) =
           fl_mul (fl_div (fl_div (total_ms u) 1000) 60) (rate_d c)
       \<and> (billable_cost_d t = Inr r \<longrightarrow>
            cost (bucket (breakdown r) c) =
              fl_mul (fl_div (fl_div (total_ms u) 1000) 60) (rate_d c))
       \<and> (total_ms u = 1000 * rat_of_int s \<and> \<bar>s\<bar> < 2 ^ 53 \<longrightarrow>
            cost (bucket (breakdown (calculateCost_d t)) c) =
              fl_mul (fl_div (total_ms u) 60000) (rate_d c))
       \<and> (total_ms u = 0 \<longrightarrow> cost (bucket (breakdown (calculateCost_d t)) c) = 0)
       \<and> (1 \<le> total_ms u \<longrightarrow>
            \<bar>cost (bucket (breakdown (calculateCost_d t)) c) - total_ms u / 60000 * rate c\<bar>
              \<le> total_ms u / 60000 * rate c / 2 ^ 50)
       \<and> cost (bucket (breakdown (calculateCost t)) c) = total_ms u / 60000 * rate c
       \<and> rate_d OS_UBUNTU = round64 (8 / 1000) \<and> rate_d OS_WINDOWS = round64 (16 / 1000)
       \<and> rate_d OS_MACOS = round64 (8 / 100)
       \<and> rate_d OS_WINDOWS = 2 * rate_d OS_UBUNTU
       \<and> rate_d OS_MACOS = fl_mul 10 (rate_d OS_UBUNTU)
       \<and> rate OS_UBUNTU = 8 / 1000 \<and> rate OS_WINDOWS = 16 / 1000 \<and> rate OS_MACOS = 8 / 100"
proof -
  have a: "cost (bucket (breakdown (calculateCost_d t)) c) =
           fl_mul (fl_div (fl_div (total_ms u) 1000) 60) (rate_d c)"
    using assms(2) by (simp add: calculateCost_d_def cost_of_billable_d_bucket)
  have b: "billable_cost_d t = Inr r \<longrightarrow>
            cost (bucket (breakdown r) c) =
              fl_mul (fl_div (fl_div (total_ms u) 1000) 60) (rate_d c)"
    using assms(2) by (auto simp: billable_cost_d_cases cost_of_billable_d_bucket split: if_splits)
  have w: "total_ms u = 1000 * rat_of_int s \<and> \<bar>s\<bar> < 2 ^ 53 \<longrightarrow>
            cost (bucket (breakdown (calculateCost_d t)) c) =
              fl_mul (fl_div (total_ms u) 60000) (rate_d c)"
    unfolding a using fl_div_whole_seconds [of s] by auto
  have z: "total_ms u = 0 \<longrightarrow> cost (bucket (breakdown (calculateCost_d t)) c) = 0"
    unfolding a by (simp add: fl_div_def fl_mul_def round64_def)
  have e: "1 \<le> total_ms u \<longrightarrow>
            \<bar>cost (bucket (breakdown (calculateCost_d t)) c) - total_ms u / 60000 * rate c\<bar>
              \<le> total_ms u / 60000 * rate c / 2 ^ 50"
    unfolding a using cost_d_error [of "total_ms u" c] by blast
  have x: "cost (bucket (breakdown (calculateCost t)) c) = total_ms u / 60000 * rate c"
    using assms(2) by (simp add: calculateCost_def cost_of_billable_bucket usage_minutes_def)
  have r1: "rate_d OS_UBUNTU = round64 (8 / 1000)" "rate_d OS_WINDOWS = round64 (16 / 1000)"
    "rate_d OS_MACOS = round64 (8 / 100)"
    by (simp_all add: PRICING_LINUX_d_def PRICING_WINDOWS_d_def PRICING_MACOS_d_def)
  have r2: "rate_d OS_WINDOWS = 2 * rate_d OS_UBUNTU" "rate_d OS_MACOS = fl_mul 10 (rate_d OS_UBUNTU)"
    using rates_d(2,3) by simp_all
  have r3: "rate OS_UBUNTU = 8 / 1000" "rate OS_WINDOWS = 16 / 1000" "rate OS_MACOS = 8 / 100"
    by (simp_all add: PRICING_LINUX_def PRICING_WINDOWS_def PRICING_MACOS_def)
  show ?thesis
    by (intro conjI a b w z e x r1 r2 r3)
qed

text \<open>
  90000 ms of macOS usage: the cost is (90000 / 60000) * 0.08 in doubles,
  0.12000000000000002.
\<close>

theorem cost_is_minutes_times_rate_doubles_witness:
  "cost (bucket (breakdown (calculateCost_d \<lparr>billable = Some [(''MACOS'', \<lparr>total_ms = 90000\<rparr>)]\<rparr>))
       OS_MACOS) = fl_mul (fl_div 90000 60000) PRICING_MACOS_d
   \<and> fl_mul (fl_div 90000 60000) PRICING_MACOS_d = 1080863910568919 / 2 ^ 53"
proof -
  let ?t = "\<lparr>billable = Some [(''MACOS'', \<lparr>total_ms = 90000\<rparr>)]\<rparr>"
  have h1: "0 \<le> total_ms \<lparr>total_ms = 90000\<rparr>" by simp
  have h2: "map_of (billable_or_empty ?t) (os_key OS_MACOS) = Some \<lparr>total_ms = 90000\<rparr>"
    by (simp add: billable_or_empty_def)
  have h3: "total_ms \<lparr>total_ms = 90000\<rparr> = 1000 * rat_of_int 90 \<and> \<bar>90 :: int\<bar> < 2 ^ 53"
    by simp
  have v: "fl_mul (fl_div 90000 60000) PRICING_MACOS_d = 1080863910568919 / 2 ^ 53"
    by code_simp
  from cost_is_minutes_times_rate_doubles [OF h1 h2, of _ 90] h3
  have "cost (bucket (breakdown (calculateCost_d ?t)) OS_MACOS) =
      fl_mul (fl_div (total_ms \<lparr>total_ms = 90000\<rparr>) 60000) (rate_d OS_MACOS)"
    by blast
  with v show ?thesis by simp
qed

section \<open>Properties of the aggregation\<close>

lemma getDateDaysAgo_examples:
  "getDateDaysAgo clock_2025_11_03 (Finite 7) = Inr 20388"
  "getDateDaysAgo clock_2025_11_03 (Finite 0) = Inr 20395"
  "getDateDaysAgo clock_2025_11_03 NegZero = Inr 20395"
  "getDateDaysAgo clock_2025_11_03 (Finite (- 7)) = Inr 20402"
  "getDateDaysAgo clock_2025_11_03 (Finite 200000000) = Inl (RangeError ''Invalid time value'')"
  "getDateDaysAgo clock_2025_11_03 NaN = Inl (RangeError ''Invalid time value'')"
  by code_simp+

lemma run_cost_Inl_iff: "(\<exists>e. run_cost gh i = Inl e) \<longleftrightarrow> job_fetch_fails gh i"
  by (auto simp: run_cost_def job_fetch_fails_def billable_cost_cases split: sum.splits if_splits)

lemma process_run_failed: "job_fetch_fails gh i \<Longrightarrow> process_run gh acc i = acc"
  using run_cost_Inl_iff [of gh i] by (auto simp: process_run_def split: sum.splits)

lemma process_run_analyzed:
  "analyzedRuns_var (process_run gh acc i) =
     analyzedRuns_var acc + (if job_fetch_fails gh i then 0 else 1)"
  using run_cost_Inl_iff [of gh i] by (auto simp: process_run_def split: sum.splits)

lemma foldl_process_run_analyzed:
  "analyzedRuns_var (foldl (process_run gh) acc runs) =
     analyzedRuns_var acc + length (filter (\<lambda>i. \<not> job_fetch_fails gh i) runs)"
  by (induction runs arbitrary: acc) (simp_all add: process_run_analyzed)

lemma foldl_process_run_filter:
  "foldl (process_run gh) acc (filter (\<lambda>i. \<not> job_fetch_fails gh i) runs) =
     foldl (process_run gh) acc runs"
  by (induction runs arbitrary: acc) (simp_all add: process_run_failed)

lemma run_cost_listing_irrelevant [simp]:
  "run_cost (gh\<lparr>listWorkflowRunsForRepo := f\<rparr>) = run_cost gh"
  by (rule ext) (simp add: run_cost_def split: sum.splits)

lemma process_run_listing_irrelevant [simp]:
  "process_run (gh\<lparr>listWorkflowRunsForRepo := f\<rparr>) = process_run gh"
  by (intro ext) (simp add: process_run_def split: sum.splits)

lemma job_fetch_fails_listing_irrelevant [simp]:
  "job_fetch_fails (gh\<lparr>listWorkflowRunsForRepo := f\<rparr>) = job_fetch_fails gh"
  by (rule ext) (simp add: job_fetch_fails_def split: sum.splits)

lemma calculateRepoCost_Inr:
  "getDateDaysAgo clk days = Inr dateFilter \<Longrightarrow>
   listWorkflowRunsForRepo gh dateFilter = Inr allRuns \<Longrightarrow>
   calculateRepoCost clk gh ow rp days =
     Inr (summarize ow rp days allRuns (foldl (process_run gh) no_totals allRuns))"
  by (simp add: calculateRepoCost_def)

lemma calculateRepoCost_Inl_iff:
  "calculateRepoCost clk gh ow rp days = Inl e \<longleftrightarrow>
     getDateDaysAgo clk days = Inl e
     \<or> (\<exists>dateFilter. getDateDaysAgo clk days = Inr dateFilter
            \<and> listWorkflowRunsForRepo gh dateFilter = Inl e)"
  by (auto simp: calculateRepoCost_def split: sum.splits)

lemma gh_ten_runs_fails:
  "job_fetch_fails gh_ten_runs i \<longleftrightarrow> i = 3 \<or> i = 6 \<or> i = 9"
  by (simp add: job_fetch_fails_def gh_ten_runs_def)

text \<open>
  Claim C4. A run whose job request fails leaves every total and the count of analyzed runs
  as they were, and the batch goes on: once the runs are listed, \<open>calculateRepoCost\<close> returns
  a result with \<open>totalRuns\<close> the number of listed runs, \<open>analyzedRuns\<close> the number of runs
  whose job request did not fail, hence \<open>analyzedRuns \<le> totalRuns\<close>, and the result is the
  one obtained from the list without the failing runs (but for \<open>totalRuns\<close>).
\<close>

theorem failed_runs_are_skipped:
  assumes "getDateDaysAgo clk days = Inr dateFilter"
    and "listWorkflowRunsForRepo gh dateFilter = Inr allRuns"
  shows "(\<forall>i acc. job_fetch_fails gh i \<longrightarrow> process_run gh acc i = acc)
    \<and> (\<exists>r. calculateRepoCost clk gh ow rp days = Inr r
          \<and> totalRuns r = length allRuns
          \<and> analyzedRuns r = length (filter (\<lambda>i. \<not> job_fetch_fails gh i) allRuns)
          \<and> analyzedRuns r \<le> totalRuns r
          \<and> calculateRepoCost clk
               (gh\<lparr>listWorkflowRunsForRepo := \<lambda>d. Inr (filter (\<lambda>i. \<not> job_fetch_fails gh i) allRuns)\<rparr>)
               ow rp days = Inr (r\<lparr>totalRuns := analyzedRuns r\<rparr>))"
proof -
  let ?ok = "filter (\<lambda>i. \<not> job_fetch_fails gh i) allRuns"
  let ?r = "summarize ow rp days allRuns (foldl (process_run gh) no_totals allRuns)"
  have r: "calculateRepoCost clk gh ow rp days = Inr ?r"
    using assms by (rule calculateRepoCost_Inr)
  have total: "totalRuns ?r = length allRuns"
    by (simp add: summarize_def)
  have analyzed: "analyzedRuns ?r = length ?ok"
    by (simp add: summarize_def foldl_process_run_analyzed no_totals_def)
  have le: "analyzedRuns ?r \<le> totalRuns ?r"
    unfolding total analyzed by (rule length_filter_le)
  have dropped: "calculateRepoCost clk (gh\<lparr>listWorkflowRunsForRepo := \<lambda>d. Inr ?ok\<rparr>) ow rp days =
      Inr (?r\<lparr>totalRuns := analyzedRuns ?r\<rparr>)"
    unfolding analyzed using assms(1)
    by (simp add: calculateRepoCost_def foldl_process_run_filter summarize_def)
  show ?thesis
    using r total analyzed le dropped process_run_failed by blast
qed

text \<open>
  Ten runs, of which runs 3, 6 and 9 fail both requests: 7 analyzed runs out of 10.
\<close>

theorem failed_runs_are_skipped_witness:
  "getDateDaysAgo clock_2025_11_03 (Finite 7) = Inr 20388
   \<and> listWorkflowRunsForRepo gh_ten_runs 20388 = Inr [1, 2, 3, 4, 5, 6, 7, 8, 9, 10]
   \<and> (\<exists>r. calculateRepoCost clock_2025_11_03 gh_ten_runs ''o'' ''r'' (Finite 7) = Inr r
          \<and> totalRuns r = 10 \<and> analyzedRuns r = 7)"
proof -
  have d: "getDateDaysAgo clock_2025_11_03 (Finite 7) = Inr 20388"
    by (rule getDateDaysAgo_examples)
  have l: "listWorkflowRunsForRepo gh_ten_runs 20388 = Inr [1, 2, 3, 4, 5, 6, 7, 8, 9, 10]"
    by (simp add: gh_ten_runs_def)
  have n: "length (filter (\<lambda>i. \<not> job_fetch_fails gh_ten_runs i) [1, 2, 3, 4, 5, 6, 7, 8, 9, 10]) = 7"
    by (simp add: gh_ten_runs_fails)
  from failed_runs_are_skipped [OF d l, of "''o''" "''r''"]
  obtain r where "calculateRepoCost clock_2025_11_03 gh_ten_runs ''o'' ''r'' (Finite 7) = Inr r"
    and "totalRuns r = length [1, 2, 3, 4, 5, 6, 7, 8, 9, 10::nat]"
    and "analyzedRuns r =
      length (filter (\<lambda>i. \<not> job_fetch_fails gh_ten_runs i) [1, 2, 3, 4, 5, 6, 7, 8, 9, 10])"
    by blast
  with d l n show ?thesis by simp
qed

lemma run_cost_gh_one_run:
  "run_cost (gh_one_run b) i =
     (if hasBillableData b then Inr (cost_of_billable b) else Inl (RequestError 502))"
  by (simp add: run_cost_def billable_cost_cases gh_one_run_def billable_or_empty_def)

lemma calculateRepoCost_gh_one_dollar:
  "getDateDaysAgo clk days = Inr dateFilter \<Longrightarrow>
   calculateRepoCost clk (gh_one_run [(''UBUNTU'', \<lparr>total_ms = 7500000\<rparr>)]) ''o'' ''r'' days =
     Inr \<lparr>slug = ''o/r'', owner = ''o'', repo = ''r'', daysAnalyzed = days, totalRuns = 1,
          analyzedRuns = 1, linuxMinutes = 125, windowsMinutes = 0, macosMinutes = 0,
          actualCost = 1, monthlyCost = js_times 1 (js_divide 30 days),
          yearlyCost = js_times 1 (js_divide 365 days)\<rparr>"
  by (simp add: calculateRepoCost_def gh_one_run_def summarize_def process_run_def run_cost_def
      billable_cost_def billable_or_empty_def hasBillableData_def no_totals_def
      cost_of_billable_def charge_UBUNTU_def charge_WINDOWS_def charge_MACOS_def zero_costs_def
      set_total_def PRICING_LINUX_def Let_def)

text \<open>
  Claim C5. For every result with \<open>days > 0\<close>, \<open>monthlyCost = actualCost * (30 / days)\<close> and
  \<open>yearlyCost = actualCost * (365 / days)\<close>.
\<close>

theorem projections_scale_by_days:
  assumes "0 < days" and "calculateRepoCost clk gh ow rp (Finite days) = Inr r"
  shows "monthlyCost r = Finite (actualCost r * (30 / days))
       \<and> yearlyCost r = Finite (actualCost r * (365 / days))"
  using assms
  by (auto simp: calculateRepoCost_def summarize_def js_divide_def js_times_def split: sum.splits)

text \<open>
  With \<open>days = 7\<close> and one run that costs 1.00: \<open>monthlyCost = 30 / 7\<close>, about 4.2857, and
  \<open>yearlyCost = 365 / 7\<close>, about 52.1429.
\<close>

theorem projections_scale_by_days_witness:
  "calculateRepoCost clock_2025_11_03 (gh_one_run [(''UBUNTU'', \<lparr>total_ms = 7500000\<rparr>)])
       ''o'' ''r'' (Finite 7) =
     Inr \<lparr>slug = ''o/r'', owner = ''o'', repo = ''r'', daysAnalyzed = Finite 7, totalRuns = 1,
          analyzedRuns = 1, linuxMinutes = 125, windowsMinutes = 0, macosMinutes = 0,
          actualCost = 1, monthlyCost = Finite (30 / 7), yearlyCost = Finite (365 / 7)\<rparr>
   \<and> \<bar>30 / 7 - 42857 / 10000\<bar> < (1 / 10000 :: rat)
   \<and> \<bar>365 / 7 - 521429 / 10000\<bar> < (1 / 10000 :: rat)"
proof -
  let ?gh = "gh_one_run [(''UBUNTU'', \<lparr>total_ms = 7500000\<rparr>)]"
  let ?r = "\<lparr>slug = ''o/r'', owner = ''o'', repo = ''r'', daysAnalyzed = Finite 7, totalRuns = 1,
          analyzedRuns = 1, linuxMinutes = 125, windowsMinutes = 0, macosMinutes = 0,
          actualCost = 1, monthlyCost = js_times 1 (js_divide 30 (Finite 7)),
          yearlyCost = js_times 1 (js_divide 365 (Finite 7))\<rparr>"
  have v: "calculateRepoCost clock_2025_11_03 ?gh ''o'' ''r'' (Finite 7) = Inr ?r"
    by (rule calculateRepoCost_gh_one_dollar) (rule getDateDaysAgo_examples)
  have d: "(0::rat) < 7" by simp
  from projections_scale_by_days [OF d v]
  have "monthlyCost ?r = Finite (30 / 7)" and "yearlyCost ?r = Finite (365 / 7)"
    by simp_all
  then have "?r = \<lparr>slug = ''o/r'', owner = ''o'', repo = ''r'', daysAnalyzed = Finite 7,
          totalRuns = 1,
          analyzedRuns = 1, linuxMinutes = 125, windowsMinutes = 0, macosMinutes = 0,
          actualCost = 1, monthlyCost = Finite (30 / 7), yearlyCost = Finite (365 / 7)\<rparr>"
    by simp
  with v show ?thesis by simp
qed

lemma getDateDaysAgo_nonfinite:
  "getDateDaysAgo clk NaN = Inl (RangeError ''Invalid time value'')"
  "getDateDaysAgo clk PosInfinity = Inl (RangeError ''Invalid time value'')"
  "getDateDaysAgo clk NegInfinity = Inl (RangeError ''Invalid time value'')"
  by (simp_all add: getDateDaysAgo_def date_minus_days_def setDate_def toISOString_date_def)

lemma getDateDaysAgo_Finite:
  "getDateDaysAgo clk (Finite d) =
     (if 8640000000000000 <
           \<bar>time_value clk
             + (ToIntegerOrInfinity (fl_sub (of_int (local_date clk)) d) - local_date clk) * msPerDay\<bar>
      then Inl (RangeError ''Invalid time value'')
      else Inr ((time_value clk
             + (ToIntegerOrInfinity (fl_sub (of_int (local_date clk)) d) - local_date clk) * msPerDay)
            div msPerDay))"
  by (simp add: getDateDaysAgo_def date_minus_days_def setDate_def toISOString_date_def
      TimeClip_def)

lemma getDateDaysAgo_Inl_iff:
  "getDateDaysAgo clk days = Inl e \<longleftrightarrow>
     e = RangeError ''Invalid time value'' \<and> setDate clk (date_minus_days clk days) = None"
  by (auto simp: getDateDaysAgo_def toISOString_date_def split: option.splits)

lemma getDateDaysAgo_zero:
  assumes "valid_clock clk"
  shows "getDateDaysAgo clk (Finite 0) = Inr (time_value clk div msPerDay)"
    and "getDateDaysAgo clk NegZero = Inr (time_value clk div msPerDay)"
proof -
  from assms have t: "\<not> 8640000000000000 < \<bar>time_value clk\<bar>"
    and d: "\<bar>local_date clk\<bar> < 2 ^ 53"
    by (simp_all add: valid_clock_def)
  have s: "fl_sub (of_int (local_date clk)) 0 = of_int (local_date clk)"
    using round64_of_int [OF d] by (simp add: fl_sub_def)
  have i: "ToIntegerOrInfinity (of_int (local_date clk)) = local_date clk"
    by (simp add: ToIntegerOrInfinity_def)
  show "getDateDaysAgo clk (Finite 0) = Inr (time_value clk div msPerDay)"
    using t by (simp add: getDateDaysAgo_Finite s i)
  show "getDateDaysAgo clk NegZero = Inr (time_value clk div msPerDay)"
    using t
    by (simp add: getDateDaysAgo_def date_minus_days_def setDate_def toISOString_date_def
        TimeClip_def i)
qed

lemma projections_at_zero:
  "js_times a (js_divide 30 (Finite 0)) =
     (if a = 0 then NaN else if 0 < a then PosInfinity else NegInfinity)"
  "js_times a (js_divide 365 (Finite 0)) =
     (if a = 0 then NaN else if 0 < a then PosInfinity else NegInfinity)"
  "js_times a (js_divide 30 NegZero) =
     (if a = 0 then NaN else if 0 < a then NegInfinity else PosInfinity)"
  "js_times a (js_divide 365 NegZero) =
     (if a = 0 then NaN else if 0 < a then NegInfinity else PosInfinity)"
  by (simp_all add: js_times_def js_divide_def)

lemma projections_negative:
  "d < 0 \<Longrightarrow> 0 < k \<Longrightarrow>
   js_times a (js_divide k (Finite d)) = (if a = 0 then NegZero else Finite (a * (k / d)))"
  by (auto simp: js_times_def js_divide_def divide_less_0_iff)

text \<open>
  Claim C1 says that \<open>calculateRepoCost\<close> fails for \<open>days \<le> 0\<close>. With \<open>days = 0\<close> and one
  run that costs 1.00 it returns a result, whose projections are \<open>Infinity\<close>.
\<close>

theorem calculateRepoCost_days_zero_counterexample:
  "calculateRepoCost clock_2025_11_03 (gh_one_run [(''UBUNTU'', \<lparr>total_ms = 7500000\<rparr>)])
       ''o'' ''r'' (Finite 0) =
     Inr \<lparr>slug = ''o/r'', owner = ''o'', repo = ''r'', daysAnalyzed = Finite 0, totalRuns = 1,
          analyzedRuns = 1, linuxMinutes = 125, windowsMinutes = 0, macosMinutes = 0,
          actualCost = 1, monthlyCost = PosInfinity, yearlyCost = PosInfinity\<rparr>"
  by (simp add: calculateRepoCost_gh_one_dollar [OF getDateDaysAgo_examples(2)]
      js_divide_def js_times_def)

text \<open>
  Claim C1, amended. \<open>calculateRepoCost\<close> has no InvalidWindow condition and does not fail
  because \<open>days \<le> 0\<close>. It fails in exactly two ways: \<open>getDateDaysAgo(days)\<close> throws a
  \<open>RangeError\<close>, or the listing of the runs fails. The first happens when \<open>days\<close> is \<open>NaN\<close> or
  an infinity, and for a finite \<open>days\<close> exactly when the date so many days before now is more
  than 8.64e15 ms from the epoch (about 1e8 days). With \<open>days = 0\<close> or \<open>-0\<close> and a valid clock
  the date is today's, and once the runs are listed a result is returned, whose projections
  are \<open>NaN\<close> for a zero cost and an infinity otherwise (of the sign of the cost for \<open>0\<close>, of
  the opposite sign for \<open>-0\<close>). With a negative \<open>days\<close> whose date is valid a result is
  returned with the projections \<open>actualCost * (30 / days)\<close> and \<open>actualCost * (365 / days)\<close>
  (\<open>-0\<close> for a zero cost).
\<close>

theorem calculateRepoCost_fails_on_date_or_listing:
  "(calculateRepoCost clk gh ow rp days = Inl e \<longleftrightarrow>
      getDateDaysAgo clk days = Inl e
      \<or> (\<exists>dateFilter. getDateDaysAgo clk days = Inr dateFilter
             \<and> listWorkflowRunsForRepo gh dateFilter = Inl e))
   \<and> (days = NaN \<or> days = PosInfinity \<or> days = NegInfinity \<longrightarrow>
        calculateRepoCost clk gh ow rp days = Inl (RangeError ''Invalid time value''))
   \<and> (getDateDaysAgo clk (Finite d) = Inl e \<longleftrightarrow>
        e = RangeError ''Invalid time value''
        \<and> 8640000000000000 <
            \<bar>time_value clk
              + (ToIntegerOrInfinity (fl_sub (of_int (local_date clk)) d) - local_date clk)
                * msPerDay\<bar>)
   \<and> (valid_clock clk \<and> (days = Finite 0 \<or> days = NegZero)
        \<and> listWorkflowRunsForRepo gh (time_value clk div msPerDay) = Inr allRuns \<longrightarrow>
        (\<exists>r. calculateRepoCost clk gh ow rp days = Inr r \<and> daysAnalyzed r = days
           \<and> yearlyCost r = monthlyCost r
           \<and> monthlyCost r =
               (if actualCost r = 0 then NaN
                else if (0 < actualCost r) = (days = Finite 0) then PosInfinity
                else NegInfinity)))
   \<and> (d < 0 \<and> getDateDaysAgo clk (Finite d) = Inr dateFilter
        \<and> listWorkflowRunsForRepo gh dateFilter = Inr allRuns \<longrightarrow>
        (\<exists>r. calculateRepoCost clk gh ow rp (Finite d) = Inr r \<and> daysAnalyzed r = Finite d
           \<and> monthlyCost r =
               (if actualCost r = 0 then NegZero else Finite (actualCost r * (30 / d)))
           \<and> yearlyCost r =
               (if actualCost r = 0 then NegZero else Finite (actualCost r * (365 / d)))))"
proof (intro conjI impI)
  show "calculateRepoCost clk gh ow rp days = Inl e \<longleftrightarrow>
      getDateDaysAgo clk days = Inl e
      \<or> (\<exists>dateFilter. getDateDaysAgo clk days = Inr dateFilter
             \<and> listWorkflowRunsForRepo gh dateFilter = Inl e)"
    by (rule calculateRepoCost_Inl_iff)
next
  assume "days = NaN \<or> days = PosInfinity \<or> days = NegInfinity"
  then have "getDateDaysAgo clk days = Inl (RangeError ''Invalid time value'')"
    using getDateDaysAgo_nonfinite [of clk] by auto
  then show "calculateRepoCost clk gh ow rp days = Inl (RangeError ''Invalid time value'')"
    by (simp add: calculateRepoCost_def)
next
  show "getDateDaysAgo clk (Finite d) = Inl e \<longleftrightarrow>
        e = RangeError ''Invalid time value''
        \<and> 8640000000000000 <
            \<bar>time_value clk
              + (ToIntegerOrInfinity (fl_sub (of_int (local_date clk)) d) - local_date clk)
                * msPerDay\<bar>"
    unfolding getDateDaysAgo_Finite by auto
next
  assume a: "valid_clock clk \<and> (days = Finite 0 \<or> days = NegZero)
        \<and> listWorkflowRunsForRepo gh (time_value clk div msPerDay) = Inr allRuns"
  then have g: "getDateDaysAgo clk days = Inr (time_value clk div msPerDay)"
    using getDateDaysAgo_zero [of clk] by auto
  let ?r = "summarize ow rp days allRuns (foldl (process_run gh) no_totals allRuns)"
  have r: "calculateRepoCost clk gh ow rp days = Inr ?r"
    using g a by (intro calculateRepoCost_Inr) auto
  have p: "daysAnalyzed ?r = days \<and> yearlyCost ?r = monthlyCost ?r
      \<and> monthlyCost ?r =
          (if actualCost ?r = 0 then NaN
           else if (0 < actualCost ?r) = (days = Finite 0) then PosInfinity
           else NegInfinity)"
    using a by (auto simp: summarize_def projections_at_zero)
  from r p show "\<exists>r. calculateRepoCost clk gh ow rp days = Inr r \<and> daysAnalyzed r = days
           \<and> yearlyCost r = monthlyCost r
           \<and> monthlyCost r =
               (if actualCost r = 0 then NaN
                else if (0 < actualCost r) = (days = Finite 0) then PosInfinity
                else NegInfinity)"
    by blast
next
  assume a: "d < 0 \<and> getDateDaysAgo clk (Finite d) = Inr dateFilter
        \<and> listWorkflowRunsForRepo gh dateFilter = Inr allRuns"
  let ?r = "summarize ow rp (Finite d) allRuns (foldl (process_run gh) no_totals allRuns)"
  have r: "calculateRepoCost clk gh ow rp (Finite d) = Inr ?r"
    using a by (intro calculateRepoCost_Inr) auto
  have p: "daysAnalyzed ?r = Finite d
      \<and> monthlyCost ?r = (if actualCost ?r = 0 then NegZero else Finite (actualCost ?r * (30 / d)))
      \<and> yearlyCost ?r = (if actualCost ?r = 0 then NegZero else Finite (actualCost ?r * (365 / d)))"
    using a by (simp add: summarize_def projections_negative)
  from r p show "\<exists>r. calculateRepoCost clk gh ow rp (Finite d) = Inr r \<and> daysAnalyzed r = Finite d
           \<and> monthlyCost r =
               (if actualCost r = 0 then NegZero else Finite (actualCost r * (30 / d)))
           \<and> yearlyCost r =
               (if actualCost r = 0 then NegZero else Finite (actualCost r * (365 / d)))"
    by blast
qed

text \<open>
  With \<open>days = -7\<close> and one run that costs 1.00 the projections are -30/7 and -365/7; with
  \<open>days = 200000000\<close> and with \<open>days = NaN\<close> the call fails with the \<open>RangeError\<close>.
\<close>

theorem calculateRepoCost_fails_on_date_or_listing_witness:
  "calculateRepoCost clock_2025_11_03 (gh_one_run [(''UBUNTU'', \<lparr>total_ms = 7500000\<rparr>)])
       ''o'' ''r'' (Finite (- 7)) =
     Inr \<lparr>slug = ''o/r'', owner = ''o'', repo = ''r'', daysAnalyzed = Finite (- 7), totalRuns = 1,
          analyzedRuns = 1, linuxMinutes = 125, windowsMinutes = 0, macosMinutes = 0,
          actualCost = 1, monthlyCost = Finite (- (30 / 7)), yearlyCost = Finite (- (365 / 7))\<rparr>
   \<and> calculateRepoCost clock_2025_11_03 (gh_one_run []) ''o'' ''r'' (Finite 200000000) =
       Inl (RangeError ''Invalid time value'')
   \<and> calculateRepoCost clock_2025_11_03 (gh_one_run []) ''o'' ''r'' NaN =
       Inl (RangeError ''Invalid time value'')"
proof -
  let ?gh = "gh_one_run [(''UBUNTU'', \<lparr>total_ms = 7500000\<rparr>)]"
  have g: "getDateDaysAgo clock_2025_11_03 (Finite (- 7)) = Inr 20402"
    by (rule getDateDaysAgo_examples)
  have l: "listWorkflowRunsForRepo ?gh 20402 = Inr [1]"
    by (simp add: gh_one_run_def)
  have n: "(- 7 :: rat) < 0" by simp
  from calculateRepoCost_fails_on_date_or_listing
    [of clock_2025_11_03 ?gh "''o''" "''r''" "Finite (- 7)" _ "- 7" "[1]" 20402] n g l
  obtain r where r: "calculateRepoCost clock_2025_11_03 ?gh ''o'' ''r'' (Finite (- 7)) = Inr r"
    and "monthlyCost r = (if actualCost r = 0 then NegZero else Finite (actualCost r * (30 / (- 7))))"
    and "yearlyCost r = (if actualCost r = 0 then NegZero else Finite (actualCost r * (365 / (- 7))))"
    by blast
  then have 1: "calculateRepoCost clock_2025_11_03 ?gh ''o'' ''r'' (Finite (- 7)) =
     Inr \<lparr>slug = ''o/r'', owner = ''o'', repo = ''r'', daysAnalyzed = Finite (- 7), totalRuns = 1,
          analyzedRuns = 1, linuxMinutes = 125, windowsMinutes = 0, macosMinutes = 0,
          actualCost = 1, monthlyCost = Finite (- (30 / 7)), yearlyCost = Finite (- (365 / 7))\<rparr>"
    by (simp add: calculateRepoCost_gh_one_dollar [OF g] js_divide_def js_times_def)
  have 2: "calculateRepoCost clock_2025_11_03 (gh_one_run []) ''o'' ''r'' (Finite 200000000) =
       Inl (RangeError ''Invalid time value'')"
    using calculateRepoCost_fails_on_date_or_listing
      [of clock_2025_11_03 "gh_one_run []" "''o''" "''r''" "Finite 200000000"
        "RangeError ''Invalid time value''"]
      getDateDaysAgo_examples(5)
    by blast
  have 3: "calculateRepoCost clock_2025_11_03 (gh_one_run []) ''o'' ''r'' NaN =
       Inl (RangeError ''Invalid time value'')"
    using calculateRepoCost_fails_on_date_or_listing
      [of clock_2025_11_03 "gh_one_run []" "''o''" "''r''" NaN]
    by blast
  from 1 2 3 show ?thesis by (intro conjI)
qed

lemma cost_of_billable_zero:
  assumes "\<And>c u. map_of b (os_key c) = Some u \<Longrightarrow> total_ms u = 0"
  shows "cost_of_billable b = zero_costs"
proof -
  have u: "map_of b ''UBUNTU'' = Some u \<Longrightarrow> total_ms u = 0" for u
    using assms [of OS_UBUNTU u] by simp
  have w: "map_of b ''WINDOWS'' = Some u \<Longrightarrow> total_ms u = 0" for u
    using assms [of OS_WINDOWS u] by simp
  have m: "map_of b ''MACOS'' = Some u \<Longrightarrow> total_ms u = 0" for u
    using assms [of OS_MACOS u] by simp
  have 1: "charge_UBUNTU b zero_costs = zero_costs"
    by (cases "map_of b ''UBUNTU''") (simp_all add: charge_UBUNTU_def zero_costs_def u)
  have 2: "charge_WINDOWS b zero_costs = zero_costs"
    by (cases "map_of b ''WINDOWS''") (simp_all add: charge_WINDOWS_def zero_costs_def w)
  have 3: "charge_MACOS b zero_costs = zero_costs"
    by (cases "map_of b ''MACOS''") (simp_all add: charge_MACOS_def zero_costs_def m)
  have 4: "set_total zero_costs = zero_costs"
    by (simp add: set_total_def zero_costs_def)
  show ?thesis
    by (simp only: cost_of_billable_def 1 2 3 4)
qed

lemma process_run_Inr:
  "run_cost gh i = Inr c \<Longrightarrow>
   process_run gh acc i =
     acc\<lparr>totalLinuxMinutes := totalLinuxMinutes acc + minutes (UBUNTU (breakdown c)),
         totalWindowsMinutes := totalWindowsMinutes acc + minutes (WINDOWS (breakdown c)),
         totalMacOSMinutes := totalMacOSMinutes acc + minutes (MACOS (breakdown c)),
         totalCost := totalCost acc + total c,
         analyzedRuns_var := analyzedRuns_var acc + 1\<rparr>"
  by (simp add: process_run_def)

text \<open>
  Claim C10 says that a record whose only positive durations are under keys other than
  \<open>UBUNTU\<close>, \<open>WINDOWS\<close>, \<open>MACOS\<close> adds zero to every total. In
  \<open>{LINUX_4_CORE: {total_ms: 1}, UBUNTU: {total_ms: -60000}}\<close> the only positive duration is
  under another key, and the run adds minus one Linux minute and minus 0.008.
\<close>

theorem foreign_key_negative_class_counterexample:
  "process_run (gh_one_run [(''LINUX_4_CORE'', \<lparr>total_ms = 1\<rparr>), (''UBUNTU'', \<lparr>total_ms = - 60000\<rparr>)])
       no_totals 1 =
     \<lparr>totalLinuxMinutes = - 1, totalWindowsMinutes = 0, totalMacOSMinutes = 0,
      totalCost = - (1 / 125), analyzedRuns_var = 1\<rparr>"
  by (simp add: process_run_def run_cost_def gh_one_run_def
      billable_cost_def billable_or_empty_def hasBillableData_def no_totals_def
      cost_of_billable_def charge_UBUNTU_def charge_WINDOWS_def charge_MACOS_def zero_costs_def
      set_total_def PRICING_LINUX_def Let_def)

text \<open>
  Claim C10, amended. The sufficiency test looks at every key of the record and the breakdown
  reads only \<open>UBUNTU\<close>, \<open>WINDOWS\<close> and \<open>MACOS\<close>. So for a usage record with a positive
  duration under some other key, and whose \<open>UBUNTU\<close>, \<open>WINDOWS\<close> and \<open>MACOS\<close> entries are each
  absent or zero, the run does not go to the job-based fallback, is counted as analyzed, and
  adds exactly zero minutes and zero cost to every total.
\<close>

theorem foreign_key_usage_counts_zero:
  assumes usage: "getWorkflowRunUsage gh i = Inr t"
    and foreign: "map_of (billable_or_empty t) k = Some v" "0 < total_ms v"
      "k \<noteq> ''UBUNTU''" "k \<noteq> ''WINDOWS''" "k \<noteq> ''MACOS''"
    and classes: "\<forall>c u. map_of (billable_or_empty t) (os_key c) = Some u \<longrightarrow> total_ms u = 0"
  shows "hasBillableData (billable_or_empty t)
       \<and> calculateCost t = zero_costs
       \<and> run_cost gh i = Inr zero_costs
       \<and> process_run gh acc i = acc\<lparr>analyzedRuns_var := analyzedRuns_var acc + 1\<rparr>"
proof -
  let ?b = "billable_or_empty t"
  have has: "hasBillableData ?b"
    unfolding hasBillableData_iff using foreign(1,2) by blast
  have zero: "cost_of_billable ?b = zero_costs"
    using classes by (intro cost_of_billable_zero) blast
  have rc: "run_cost gh i = Inr zero_costs"
    using usage has zero by (simp add: run_cost_usage)
  have pr: "process_run gh acc i = acc\<lparr>analyzedRuns_var := analyzedRuns_var acc + 1\<rparr>"
    by (simp add: process_run_Inr [OF rc] zero_costs_def)
  show ?thesis
    using has zero rc pr by (simp add: calculateCost_def)
qed

text \<open>
  \<open>{UBUNTU: {total_ms: 0}, LINUX_4_CORE: {total_ms: 60000}}\<close>: the run is counted and adds
  nothing, though the job request of this client would fail.
\<close>

theorem foreign_key_usage_counts_zero_witness:
  "process_run (gh_one_run [(''UBUNTU'', \<lparr>total_ms = 0\<rparr>), (''LINUX_4_CORE'', \<lparr>total_ms = 60000\<rparr>)])
       no_totals 1 =
     \<lparr>totalLinuxMinutes = 0, totalWindowsMinutes = 0, totalMacOSMinutes = 0, totalCost = 0,
      analyzedRuns_var = 1\<rparr>"
proof -
  let ?b = "[(''UBUNTU'', \<lparr>total_ms = 0\<rparr>), (''LINUX_4_CORE'', \<lparr>total_ms = 60000\<rparr>)]"
  let ?t = "\<lparr>billable = Some ?b\<rparr>"
  have usage: "getWorkflowRunUsage (gh_one_run ?b) 1 = Inr ?t"
    by (simp add: gh_one_run_def)
  have foreign: "map_of (billable_or_empty ?t) ''LINUX_4_CORE'' = Some \<lparr>total_ms = 60000\<rparr>"
    "0 < total_ms \<lparr>total_ms = 60000\<rparr>"
    "''LINUX_4_CORE'' \<noteq> ''UBUNTU''" "''LINUX_4_CORE'' \<noteq> ''WINDOWS''" "''LINUX_4_CORE'' \<noteq> ''MACOS''"
    by (simp_all add: billable_or_empty_def)
  have classes: "\<forall>c u. map_of (billable_or_empty ?t) (os_key c) = Some u \<longrightarrow> total_ms u = 0"
  proof (intro allI impI)
    fix c u
    assume "map_of (billable_or_empty ?t) (os_key c) = Some u"
    then show "total_ms u = 0"
      by (cases c) (auto simp: billable_or_empty_def)
  qed
  from foreign_key_usage_counts_zero [OF usage foreign classes, of no_totals]
  show ?thesis
    by (simp add: no_totals_def)
qed

end
